theory Spec2Isabelle
  imports Complex_Main
begin

section \<open>Smoothed particle hydrodynamics: the simulation core of SPH.cpp\<close>

text \<open>
  The C++ \<^verbatim>\<open>float\<close> is read as a real number: arithmetic is exact, there is no rounding
  and no overflow. The one floating-point effect that is kept is the division by zero:
  where the C++ would store an infinity or a NaN, the model returns the error
  \<open>DivisionByZero\<close>. An index outside a \<^verbatim>\<open>QVector\<close> (an assertion failure in Qt) is the
  error \<open>IndexOutOfRange\<close>. The OpenMP pragmas are read as the serial loop they annotate.
\<close>

datatype error = DivisionByZero | IndexOutOfRange

subsection \<open>QVector3D\<close>

datatype QVector3D = QVector3D (xp: real) (yp: real) (zp: real)

instantiation QVector3D :: ab_group_add
begin

definition zero_QVector3D :: QVector3D where
  "zero_QVector3D = QVector3D 0 0 0"

definition plus_QVector3D :: "QVector3D \<Rightarrow> QVector3D \<Rightarrow> QVector3D" where
  "plus_QVector3D u v = QVector3D (xp u + xp v) (yp u + yp v) (zp u + zp v)"

definition minus_QVector3D :: "QVector3D \<Rightarrow> QVector3D \<Rightarrow> QVector3D" where
  "minus_QVector3D u v = QVector3D (xp u - xp v) (yp u - yp v) (zp u - zp v)"

definition uminus_QVector3D :: "QVector3D \<Rightarrow> QVector3D" where
  "uminus_QVector3D v = QVector3D (- xp v) (- yp v) (- zp v)"

instance
  by standard
    (simp_all add: zero_QVector3D_def plus_QVector3D_def minus_QVector3D_def
      uminus_QVector3D_def QVector3D.expand)

end

text \<open>\<^verbatim>\<open>operator*( float, QVector3D )\<close> and \<^verbatim>\<open>operator*( QVector3D, float )\<close>.\<close>

definition scaled :: "real \<Rightarrow> QVector3D \<Rightarrow> QVector3D" where
  "scaled k v = QVector3D (k * xp v) (k * yp v) (k * zp v)"

definition dotProduct :: "QVector3D \<Rightarrow> QVector3D \<Rightarrow> real" where
  "dotProduct u v = xp u * xp v + yp u * yp v + zp u * zp v"

definition lengthSquared :: "QVector3D \<Rightarrow> real" where
  "lengthSquared v = xp v * xp v + yp v * yp v + zp v * zp v"

definition length_v :: "QVector3D \<Rightarrow> real" where
  "length_v v = sqrt (lengthSquared v)"

text \<open>
  \<^verbatim>\<open>qFuzzyIsNull( double )\<close> of Qt: the test that \<^verbatim>\<open>QVector3D::normalized\<close> and
  \<^verbatim>\<open>QVector3D::normalize\<close> apply to the squared length.
\<close>

definition qFuzzyIsNull :: "real \<Rightarrow> bool" where
  "qFuzzyIsNull d \<longleftrightarrow> \<bar>d\<bar> \<le> 0.000000000001"

text \<open>
  \<^verbatim>\<open>QVector3D::normalized\<close> of Qt: a vector whose squared length is within \<open>10\<^sup>-\<^sup>1\<^sup>2\<close> of 1 is
  returned as it is, a vector whose squared length is at most \<open>10\<^sup>-\<^sup>1\<^sup>2\<close> gives the null
  vector, and every other vector is divided by its length.
\<close>

definition normalized :: "QVector3D \<Rightarrow> QVector3D" where
  "normalized v =
     (let len = lengthSquared v
      in if qFuzzyIsNull (len - 1) then v
         else if \<not> qFuzzyIsNull len then scaled (1 / sqrt len) v
         else 0)"

text \<open>
  \<^verbatim>\<open>QVector3D::normalize\<close> of Qt, in place: a vector whose squared length is within \<open>10\<^sup>-\<^sup>1\<^sup>2\<close>
  of 1 or at most \<open>10\<^sup>-\<^sup>1\<^sup>2\<close> is left as it is, and every other vector is divided by its
  length.
\<close>

definition normalize :: "QVector3D \<Rightarrow> QVector3D" where
  "normalize v =
     (let len = lengthSquared v
      in if qFuzzyIsNull (len - 1) \<or> qFuzzyIsNull len then v
         else scaled (1 / sqrt len) v)"

subsection \<open>Particles, the grid, the container\<close>

record Particle =
  position :: QVector3D
  velocity :: QVector3D
  acceleration :: QVector3D
  mass :: real
  density :: real
  volume :: real
  pressure :: real
  cellIndex :: nat

text \<open>
  The class \<^verbatim>\<open>Grid\<close> is not part of the source at hand. Its buckets are the field
  \<open>cellParticles\<close>; the two geometric queries \<^verbatim>\<open>Grid::neighborhood\<close> and \<^verbatim>\<open>Grid::cellIndex\<close>
  are parameters of the model.
\<close>

record Grid =
  cellParticles :: "nat \<Rightarrow> nat list"
  neighborhood :: "nat \<Rightarrow> nat list"
  cellIndex_g :: "QVector3D \<Rightarrow> nat"

record Ray =
  origin :: QVector3D
  direction :: QVector3D

record Intersection =
  position_i :: QVector3D
  normal :: QVector3D
  rayParameterT :: real

text \<open>
  The container is used through \<^verbatim>\<open>Geometry::intersect\<close> alone: a ray either misses
  (\<open>None\<close>) or hits, and then the intersection record is filled in.
\<close>

type_synonym Geometry = "Ray \<Rightarrow> Intersection option"

record SPH =
  container :: Geometry
  coeffPoly6 :: real
  coeffSpiky :: real
  coeffVisc :: real
  restDensity :: real
  smoothingRadius :: real
  smoothingRadius2 :: real
  viscosity :: real
  pressure_sph :: real
  surfaceTension :: real
  maxDeltaTime :: real
  gravity :: QVector3D
  particles :: "Particle list"
  grid :: Grid

subsection \<open>Kernel coefficients and kernels\<close>

definition initializeCoefficients :: "SPH \<Rightarrow> error + SPH" where
  "initializeCoefficients s =
     (let h6 = smoothingRadius2 s * smoothingRadius2 s * smoothingRadius2 s;
          h9 = h6 * smoothingRadius2 s * smoothingRadius s
      in if 64 * pi * h9 = 0 \<or> pi * h6 = 0 then Inl DivisionByZero
         else Inr (s\<lparr>coeffPoly6 := 315 / (64 * pi * h9),
                     coeffSpiky := 3 * 15 / (pi * h6),
                     coeffVisc := 45 / (pi * h6)\<rparr>))"

definition densityKernel :: "SPH \<Rightarrow> real \<Rightarrow> real" where
  "densityKernel s r2 = (let diff = smoothingRadius2 s - r2 in coeffPoly6 s * diff * diff * diff)"

definition densitykernelGradient :: "SPH \<Rightarrow> real \<Rightarrow> real" where
  "densitykernelGradient s r2 =
     (let diff = smoothingRadius2 s - r2 in - 3 * coeffPoly6 s * diff * diff)"

definition pressureKernel :: "SPH \<Rightarrow> real \<Rightarrow> real" where
  "pressureKernel s r =
     (if r = 0 then 0
      else let diff = smoothingRadius s - r in coeffSpiky s * diff * diff / r)"

definition viscosityKernel :: "SPH \<Rightarrow> real \<Rightarrow> real" where
  "viscosityKernel s r = coeffVisc s * (smoothingRadius s - r)"

text \<open>
  The part of the constructor that the kernels depend on: the member initialisers for the
  smoothing radius and its square, then \<^verbatim>\<open>initializeCoefficients\<close>.
\<close>

definition SPH_kernels :: "SPH \<Rightarrow> real \<Rightarrow> error + SPH" where
  "SPH_kernels s h =
     initializeCoefficients
       (s\<lparr>coeffPoly6 := 0, coeffSpiky := 0, coeffVisc := 0,
          smoothingRadius := h, smoothingRadius2 := h * h\<rparr>)"


subsection \<open>Density solver\<close>

text \<open>\<^verbatim>\<open>SPH::pressure\<close>: the linear equation of state.\<close>

definition pressure_fn :: "SPH \<Rightarrow> real \<Rightarrow> error + real" where
  "pressure_fn s dens =
     (if restDensity s = 0 then Inl DivisionByZero else Inr (dens / restDensity s - 1))"

text \<open>
  The innermost loop of \<^verbatim>\<open>computeDensities\<close>, over the particles \<open>ks\<close> of one cell, with the
  two running sums \<^verbatim>\<open>density\<close> and \<^verbatim>\<open>correction\<close>.
\<close>

fun densityCell :: "SPH \<Rightarrow> Particle \<Rightarrow> nat list \<Rightarrow> real \<times> real \<Rightarrow> error + real \<times> real" where
  "densityCell s particle [] acc = Inr acc"
| "densityCell s particle (k # ks) (dens, correction) =
     (if k < length (particles s) then
        let neighbor = particles s ! k;
            difference = position particle - position neighbor;
            r2 = lengthSquared difference
        in if r2 < smoothingRadius2 s then
             let kernelMass = densityKernel s r2 * mass neighbor
             in if density neighbor = 0 then Inl DivisionByZero
                else densityCell s particle ks
                       (dens + kernelMass, correction + kernelMass / density neighbor)
           else densityCell s particle ks (dens, correction)
      else Inl IndexOutOfRange)"

text \<open>The loop over the cells of the neighbourhood.\<close>

fun densityCells :: "SPH \<Rightarrow> Particle \<Rightarrow> nat list \<Rightarrow> real \<times> real \<Rightarrow> error + real \<times> real" where
  "densityCells s particle [] acc = Inr acc"
| "densityCells s particle (c # cs) acc =
     (case densityCell s particle (cellParticles (grid s) c) acc of
        Inl e \<Rightarrow> Inl e
      | Inr acc' \<Rightarrow> densityCells s particle cs acc')"

text \<open>The two sums of particle \<open>i\<close>, as the neighbour loops leave them.\<close>

definition densitySums :: "SPH \<Rightarrow> nat \<Rightarrow> error + real \<times> real" where
  "densitySums s i =
     (let particle = particles s ! i
      in densityCells s particle (neighborhood (grid s) (cellIndex particle)) (0, 0))"

text \<open>
  One iteration of the loop over the particles: the three setters, in the order of the
  source. The pressure is computed from the local variable \<^verbatim>\<open>density\<close>, the raw sum.
\<close>

definition computeDensity :: "SPH \<Rightarrow> nat \<Rightarrow> error + SPH" where
  "computeDensity s i =
     (case densitySums s i of
        Inl e \<Rightarrow> Inl e
      | Inr (dens, correction) \<Rightarrow>
          if correction = 0 then Inl DivisionByZero
          else let p1 = (particles s ! i)\<lparr>density := dens / correction\<rparr>
               in if density p1 = 0 then Inl DivisionByZero
                  else let p2 = p1\<lparr>volume := mass p1 / density p1\<rparr>
                       in case pressure_fn s dens of
                            Inl e \<Rightarrow> Inl e
                          | Inr pr \<Rightarrow> Inr (s\<lparr>particles := (particles s)[i := p2\<lparr>pressure := pr\<rparr>]\<rparr>))"

fun computeDensitiesLoop :: "nat list \<Rightarrow> SPH \<Rightarrow> error + SPH" where
  "computeDensitiesLoop [] s = Inr s"
| "computeDensitiesLoop (i # is) s =
     (case computeDensity s i of
        Inl e \<Rightarrow> Inl e
      | Inr s' \<Rightarrow> computeDensitiesLoop is s')"

definition computeDensities :: "SPH \<Rightarrow> error + SPH" where
  "computeDensities s = computeDensitiesLoop [0 ..< length (particles s)] s"

subsection \<open>Force solver\<close>

text \<open>
  The innermost loop of \<^verbatim>\<open>computeForces\<close>; the accumulator is the pressure force, the
  viscosity force, the tension force and the correction.
\<close>

fun forceCell :: "SPH \<Rightarrow> Particle \<Rightarrow> nat list \<Rightarrow>
    QVector3D \<times> QVector3D \<times> QVector3D \<times> real \<Rightarrow> error + QVector3D \<times> QVector3D \<times> QVector3D \<times> real" where
  "forceCell s particle [] acc = Inr acc"
| "forceCell s particle (k # ks) (pressureForce, viscosityForce, tensionForce, correction) =
     (if k < length (particles s) then
        let neighbor = particles s ! k;
            difference = position particle - position neighbor;
            r2 = lengthSquared difference
        in if r2 < smoothingRadius2 s then
             let r = sqrt r2;
                 vol = volume neighbor;
                 meanPressure = (pressure neighbor + pressure particle) * 0.5;
                 kernelRR = densityKernel s r2
             in forceCell s particle ks
                  (pressureForce - scaled (pressureKernel s r * meanPressure * vol) difference,
                   viscosityForce
                     + scaled (viscosityKernel s r * vol) (velocity neighbor - velocity particle),
                   tensionForce + scaled kernelRR difference,
                   correction + kernelRR * vol)
           else forceCell s particle ks (pressureForce, viscosityForce, tensionForce, correction)
      else Inl IndexOutOfRange)"

fun forceCells :: "SPH \<Rightarrow> Particle \<Rightarrow> nat list \<Rightarrow>
    QVector3D \<times> QVector3D \<times> QVector3D \<times> real \<Rightarrow> error + QVector3D \<times> QVector3D \<times> QVector3D \<times> real" where
  "forceCells s particle [] acc = Inr acc"
| "forceCells s particle (c # cs) acc =
     (case forceCell s particle (cellParticles (grid s) c) acc of
        Inl e \<Rightarrow> Inl e
      | Inr acc' \<Rightarrow> forceCells s particle cs acc')"

definition forceSums :: "SPH \<Rightarrow> nat \<Rightarrow> error + QVector3D \<times> QVector3D \<times> QVector3D \<times> real" where
  "forceSums s i =
     (let particle = particles s ! i
      in forceCells s particle (neighborhood (grid s) (cellIndex particle)) (0, 0, 0, 0))"

text \<open>
  One iteration of the loop over the particles. \<open>gravity_l\<close> is the gravity in the local
  frame, computed once before the loop.
\<close>

definition computeForce :: "QVector3D \<Rightarrow> SPH \<Rightarrow> nat \<Rightarrow> error + SPH" where
  "computeForce gravity_l s i =
     (case forceSums s i of
        Inl e \<Rightarrow> Inl e
      | Inr (pressureForce, viscosityForce, tensionForce, correction) \<Rightarrow>
          if correction = 0 then Inl DivisionByZero
          else let pressureForce' = scaled (pressure_sph s / correction) pressureForce;
                   viscosityForce' = scaled (viscosity s / correction) viscosityForce;
                   tensionForce' = scaled (surfaceTension s / correction) tensionForce;
                   particle = particles s ! i
               in if density particle = 0 then Inl DivisionByZero
                  else Inr (s\<lparr>particles := (particles s)
                         [i := particle\<lparr>acceleration :=
                            scaled (1 / density particle)
                              (viscosityForce' - pressureForce' - tensionForce') + gravity_l\<rparr>]\<rparr>))"

fun computeForcesLoop :: "QVector3D \<Rightarrow> nat list \<Rightarrow> SPH \<Rightarrow> error + SPH" where
  "computeForcesLoop gravity_l [] s = Inr s"
| "computeForcesLoop gravity_l (i # is) s =
     (case computeForce gravity_l s i of
        Inl e \<Rightarrow> Inl e
      | Inr s' \<Rightarrow> computeForcesLoop gravity_l is s')"

text \<open>
  \<open>mapVector\<close> stands for \<^verbatim>\<open>localTransformation().inverted().mapVector\<close>, the placement of
  the system in the scene, which is not part of the source at hand.
\<close>

definition computeForces :: "(QVector3D \<Rightarrow> QVector3D) \<Rightarrow> SPH \<Rightarrow> error + SPH" where
  "computeForces mapVector s =
     (let gravity_l = mapVector (gravity s)
      in computeForcesLoop gravity_l [0 ..< length (particles s)] s)"


subsection \<open>Integrator\<close>

definition bias :: real where
  "bias = 0.0005"

text \<open>
  The \<^verbatim>\<open>while (true)\<close> loop of \<^verbatim>\<open>moveParticles\<close>, on the local variables \<^verbatim>\<open>position\<close>,
  \<^verbatim>\<open>newPosition\<close>, \<^verbatim>\<open>movement\<close>, \<^verbatim>\<open>movementLeft\<close> and \<^verbatim>\<open>velocity\<close>. It returns the position
  and the velocity that the final branch stores in the particle; \<open>None\<close> is a loop that
  never reaches its \<^verbatim>\<open>break\<close>.
\<close>

partial_function (option) collisionLoop ::
    "Geometry \<Rightarrow> QVector3D \<Rightarrow> QVector3D \<Rightarrow> QVector3D \<Rightarrow> QVector3D \<Rightarrow> QVector3D
      \<Rightarrow> (QVector3D \<times> QVector3D) option" where
  "collisionLoop c pos newPosition movement movementLeft vel =
     (let dir = normalized movement;
          ray = \<lparr>origin = pos, direction = dir\<rparr>
      in case c ray of
           None \<Rightarrow> Some (pos + movement, vel)
         | Some intersection \<Rightarrow>
             if length_v (scaled (rayParameterT intersection) dir) < length_v movementLeft then
               let nrm = normal intersection;
                   pos1 = position_i intersection;
                   movementLeft' = newPosition - pos1;
                   movement' = movementLeft' - scaled (dotProduct movementLeft' nrm) nrm;
                   pos2 = pos1 - scaled bias nrm;
                   newPosition' = pos2 + movement';
                   vel' = vel - scaled (dotProduct vel nrm) nrm
               in collisionLoop c pos2 newPosition' movement' movementLeft' vel'
             else Some (pos + movement, vel))"

text \<open>
  Modelled from the spec: \<^verbatim>\<open>Grid::addParticle\<close> and \<^verbatim>\<open>Grid::removeParticle\<close>, which are not
  part of the source at hand, are the insertion of a particle index into the bucket of a
  cell and the erasure of that index from the bucket, by value.
\<close>

definition addParticle :: "Grid \<Rightarrow> nat \<Rightarrow> nat \<Rightarrow> Grid" where
  "addParticle g c i = g\<lparr>cellParticles := (cellParticles g)(c := cellParticles g c @ [i])\<rparr>"

definition removeParticle :: "Grid \<Rightarrow> nat \<Rightarrow> nat \<Rightarrow> Grid" where
  "removeParticle g c i = g\<lparr>cellParticles := (cellParticles g)(c := remove1 i (cellParticles g c))\<rparr>"

text \<open>One iteration of the loop over the particles.\<close>

definition moveParticle :: "real \<Rightarrow> SPH \<Rightarrow> nat \<Rightarrow> SPH option" where
  "moveParticle deltaTime s i =
     (let particle = particles s ! i;
          vel = velocity particle + scaled deltaTime (acceleration particle);
          pos = position particle;
          newPosition = position particle + scaled deltaTime vel;
          movement = newPosition - pos;
          movementLeft = movement
      in case collisionLoop (container s) pos newPosition movement movementLeft vel of
           None \<Rightarrow> None
         | Some (pos', vel') \<Rightarrow>
             let particle' = particle\<lparr>position := pos', velocity := vel'\<rparr>;
                 oldCellIndex = cellIndex particle';
                 newCellIndex = cellIndex_g (grid s) pos'
             in if oldCellIndex \<noteq> newCellIndex then
                  Some (s\<lparr>particles := (particles s)[i := particle'\<lparr>cellIndex := newCellIndex\<rparr>],
                          grid := addParticle (removeParticle (grid s) oldCellIndex i) newCellIndex i\<rparr>)
                else Some (s\<lparr>particles := (particles s)[i := particle']\<rparr>))"

fun moveParticlesLoop :: "real \<Rightarrow> nat list \<Rightarrow> SPH \<Rightarrow> SPH option" where
  "moveParticlesLoop deltaTime [] s = Some s"
| "moveParticlesLoop deltaTime (i # is) s =
     (case moveParticle deltaTime s i of
        None \<Rightarrow> None
      | Some s' \<Rightarrow> moveParticlesLoop deltaTime is s')"

definition moveParticles :: "real \<Rightarrow> SPH \<Rightarrow> SPH option" where
  "moveParticles deltaTime s = moveParticlesLoop deltaTime [0 ..< length (particles s)] s"

subsection \<open>One simulation step\<close>

text \<open>
  \<^verbatim>\<open>SPH::animate\<close>. The outer \<open>option\<close> is the termination of the integrator, the sum inside
  it the errors of the two solvers.
\<close>

definition animate :: "(QVector3D \<Rightarrow> QVector3D) \<Rightarrow> SPH \<Rightarrow> real \<Rightarrow> (error + SPH) option" where
  "animate mapVector s dt =
     (let deltaTime = (if dt > maxDeltaTime s then maxDeltaTime s else dt)
      in case computeDensities s of
           Inl e \<Rightarrow> Some (Inl e)
         | Inr s1 \<Rightarrow>
             (case computeForces mapVector s1 of
                Inl e \<Rightarrow> Some (Inl e)
              | Inr s2 \<Rightarrow> map_option Inr (moveParticles deltaTime s2)))"


subsection \<open>Seeding\<close>

text \<open>
  \<^verbatim>\<open>SPH::initializeParticles\<close>. \<open>randomInteriorPoint i\<close> is the point that the container draws
  for particle \<open>i\<close>. Without particles the loop body never runs and the quotient by the
  particle count is never stored.
\<close>

fun initializeParticlesLoop :: "real \<Rightarrow> (nat \<Rightarrow> QVector3D) \<Rightarrow> nat list \<Rightarrow> SPH \<Rightarrow> error + SPH" where
  "initializeParticlesLoop m randomInteriorPoint [] s = Inr s"
| "initializeParticlesLoop m randomInteriorPoint (i # is) s =
     (if restDensity s = 0 then Inl DivisionByZero
      else let p1 = (particles s ! i)\<lparr>mass := m\<rparr>;
               p2 = p1\<lparr>density := restDensity s\<rparr>;
               p3 = p2\<lparr>volume := m / restDensity s\<rparr>;
               p4 = p3\<lparr>position := randomInteriorPoint i\<rparr>;
               p5 = p4\<lparr>cellIndex := cellIndex_g (grid s) (position p4)\<rparr>
           in initializeParticlesLoop m randomInteriorPoint is
                (s\<lparr>particles := (particles s)[i := p5],
                   grid := addParticle (grid s) (cellIndex p5) i\<rparr>))"

definition initializeParticles :: "(nat \<Rightarrow> QVector3D) \<Rightarrow> SPH \<Rightarrow> real \<Rightarrow> error + SPH" where
  "initializeParticles randomInteriorPoint s totalVolume =
     (let totalMass = totalVolume * restDensity s
      in if particles s = [] then Inr s
         else initializeParticlesLoop (totalMass / real (length (particles s)))
                randomInteriorPoint [0 ..< length (particles s)] s)"

subsection \<open>Surface field evaluator\<close>

text \<open>
  The innermost loop of \<^verbatim>\<open>surfaceInfo\<close>; the accumulator is the density and the three
  components of the gradient.
\<close>

fun surfaceCell :: "SPH \<Rightarrow> QVector3D \<Rightarrow> nat list \<Rightarrow> real \<times> real \<times> real \<times> real
    \<Rightarrow> error + real \<times> real \<times> real \<times> real" where
  "surfaceCell s pos [] acc = Inr acc"
| "surfaceCell s pos (k # ks) (dens, gradientX, gradientY, gradientZ) =
     (if k < length (particles s) then
        let neighbor = particles s ! k;
            difference = pos - position neighbor;
            r2 = lengthSquared difference
        in if r2 < smoothingRadius2 s then
             surfaceCell s pos ks
               (dens + densityKernel s r2 * mass neighbor,
                gradientX + (2 * (xp pos - xp (position neighbor)))
                   * densitykernelGradient s r2 * mass neighbor,
                gradientY + (2 * (yp pos - yp (position neighbor)))
                   * densitykernelGradient s r2 * mass neighbor,
                gradientZ + (2 * (zp pos - zp (position neighbor)))
                   * densitykernelGradient s r2 * mass neighbor)
           else surfaceCell s pos ks (dens, gradientX, gradientY, gradientZ)
      else Inl IndexOutOfRange)"

fun surfaceCells :: "SPH \<Rightarrow> QVector3D \<Rightarrow> nat list \<Rightarrow> real \<times> real \<times> real \<times> real
    \<Rightarrow> error + real \<times> real \<times> real \<times> real" where
  "surfaceCells s pos [] acc = Inr acc"
| "surfaceCells s pos (c # cs) acc =
     (case surfaceCell s pos (cellParticles (grid s) c) acc of
        Inl e \<Rightarrow> Inl e
      | Inr acc' \<Rightarrow> surfaceCells s pos cs acc')"

text \<open>\<^verbatim>\<open>surfaceInfo\<close> returns its two output parameters, \<^verbatim>\<open>value\<close> and \<^verbatim>\<open>normal\<close>.\<close>

definition surfaceInfo :: "SPH \<Rightarrow> QVector3D \<Rightarrow> error + real \<times> QVector3D" where
  "surfaceInfo s pos =
     (case surfaceCells s pos (neighborhood (grid s) (cellIndex_g (grid s) pos)) (0, 0, 0, 0) of
        Inl e \<Rightarrow> Inl e
      | Inr (dens, gradientX, gradientY, gradientZ) \<Rightarrow>
          if restDensity s = 0 then Inl DivisionByZero
          else let nrm = QVector3D (gradientX / restDensity s) (gradientY / restDensity s)
                           (gradientZ / restDensity s);
                   nrm' = - normalize nrm;
                   a = 0.3
               in Inr (dens / restDensity s - (1 - a), nrm'))"

subsection \<open>The sums of the specification\<close>

text \<open>
  The neighbours of a point: the particles bucketed in the cells of the neighbourhood
  whose squared distance to the point is less than \<open>h\<^sup>2\<close>, and the density kernel between
  the point and particle \<open>k\<close>.
\<close>

definition inRadius :: "SPH \<Rightarrow> QVector3D \<Rightarrow> nat \<Rightarrow> bool" where
  "inRadius s pos k \<longleftrightarrow> lengthSquared (pos - position (particles s ! k)) < smoothingRadius2 s"

definition neighbors :: "SPH \<Rightarrow> QVector3D \<Rightarrow> nat \<Rightarrow> nat list" where
  "neighbors s pos c =
     filter (inRadius s pos) (concat (map (cellParticles (grid s)) (neighborhood (grid s) c)))"

definition W :: "SPH \<Rightarrow> QVector3D \<Rightarrow> nat \<Rightarrow> real" where
  "W s pos k = densityKernel s (lengthSquared (pos - position (particles s ! k)))"

text \<open>The raw density sum and the correction sum of particle \<open>i\<close>.\<close>

definition rawSum :: "SPH \<Rightarrow> nat \<Rightarrow> real" where
  "rawSum s i =
     (let p = particles s ! i
      in \<Sum>k\<leftarrow>neighbors s (position p) (cellIndex p). W s (position p) k * mass (particles s ! k))"

definition correctionSum :: "SPH \<Rightarrow> nat \<Rightarrow> real" where
  "correctionSum s i =
     (let p = particles s ! i
      in \<Sum>k\<leftarrow>neighbors s (position p) (cellIndex p).
           W s (position p) k * mass (particles s ! k) / density (particles s ! k))"

text \<open>
  The three force sums and the correction sum of particle \<open>i\<close>, over the same neighbours,
  with \<open>r\<close> the distance and \<open>difference\<close> the vector from the neighbour to the particle.
\<close>

definition pressureForceSum :: "SPH \<Rightarrow> nat \<Rightarrow> QVector3D" where
  "pressureForceSum s i =
     (let p = particles s ! i
      in - (\<Sum>k\<leftarrow>neighbors s (position p) (cellIndex p).
              scaled (pressureKernel s (length_v (position p - position (particles s ! k)))
                        * (0.5 * (pressure (particles s ! k) + pressure p))
                        * volume (particles s ! k))
                (position p - position (particles s ! k))))"

definition viscosityForceSum :: "SPH \<Rightarrow> nat \<Rightarrow> QVector3D" where
  "viscosityForceSum s i =
     (let p = particles s ! i
      in \<Sum>k\<leftarrow>neighbors s (position p) (cellIndex p).
           scaled (viscosityKernel s (length_v (position p - position (particles s ! k)))
                     * volume (particles s ! k))
             (velocity (particles s ! k) - velocity p))"

definition tensionForceSum :: "SPH \<Rightarrow> nat \<Rightarrow> QVector3D" where
  "tensionForceSum s i =
     (let p = particles s ! i
      in \<Sum>k\<leftarrow>neighbors s (position p) (cellIndex p).
           scaled (W s (position p) k) (position p - position (particles s ! k)))"

definition forceCorrectionSum :: "SPH \<Rightarrow> nat \<Rightarrow> real" where
  "forceCorrectionSum s i =
     (let p = particles s ! i
      in \<Sum>k\<leftarrow>neighbors s (position p) (cellIndex p). W s (position p) k * volume (particles s ! k))"

text \<open>
  The acceleration of particle \<open>i\<close>: each force sum scaled by its coefficient over the
  correction sum, then viscosity minus pressure minus tension, over the density of the
  particle, plus the gravity in the local frame.
\<close>

definition forceAcceleration :: "QVector3D \<Rightarrow> SPH \<Rightarrow> nat \<Rightarrow> QVector3D" where
  "forceAcceleration gravity_l s i =
     scaled (1 / density (particles s ! i))
       (scaled (viscosity s / forceCorrectionSum s i) (viscosityForceSum s i)
        - scaled (pressure_sph s / forceCorrectionSum s i) (pressureForceSum s i)
        - scaled (surfaceTension s / forceCorrectionSum s i) (tensionForceSum s i))
     + gravity_l"

text \<open>
  The density at a query point and the gradient of the density there: the sums over the
  particles within the radius of the point.
\<close>

definition surfaceDensity :: "SPH \<Rightarrow> QVector3D \<Rightarrow> real" where
  "surfaceDensity s pos =
     (\<Sum>k\<leftarrow>neighbors s pos (cellIndex_g (grid s) pos). W s pos k * mass (particles s ! k))"

definition gradientTerm :: "SPH \<Rightarrow> QVector3D \<Rightarrow> nat \<Rightarrow> real" where
  "gradientTerm s pos k =
     densitykernelGradient s (lengthSquared (pos - position (particles s ! k)))
       * mass (particles s ! k)"

definition surfaceGradient :: "SPH \<Rightarrow> QVector3D \<Rightarrow> QVector3D" where
  "surfaceGradient s pos =
     QVector3D
       (\<Sum>k\<leftarrow>neighbors s pos (cellIndex_g (grid s) pos).
          2 * (xp pos - xp (position (particles s ! k))) * gradientTerm s pos k)
       (\<Sum>k\<leftarrow>neighbors s pos (cellIndex_g (grid s) pos).
          2 * (yp pos - yp (position (particles s ! k))) * gradientTerm s pos k)
       (\<Sum>k\<leftarrow>neighbors s pos (cellIndex_g (grid s) pos).
          2 * (zp pos - zp (position (particles s ! k))) * gradientTerm s pos k)"

text \<open>Minus the gradient over the rest density: the vector that \<^verbatim>\<open>surfaceInfo\<close> normalizes.\<close>

definition minusGradient :: "SPH \<Rightarrow> QVector3D \<Rightarrow> QVector3D" where
  "minusGradient s pos = - scaled (1 / restDensity s) (surfaceGradient s pos)"

text \<open>All the particle indices bucketed around particle \<open>i\<close> are indices of particles.\<close>

definition bucketsValid :: "SPH \<Rightarrow> nat \<Rightarrow> bool" where
  "bucketsValid s c \<longleftrightarrow>
     (\<forall>k \<in> set (concat (map (cellParticles (grid s)) (neighborhood (grid s) c))).
        k < length (particles s))"

text \<open>Two particle arrays that differ in the accelerations at most.\<close>

definition accelerationFrame :: "Particle list \<Rightarrow> Particle list \<Rightarrow> bool" where
  "accelerationFrame ps ps' \<longleftrightarrow>
     length ps' = length ps
     \<and> (\<forall>k. (ps' ! k)\<lparr>acceleration := 0\<rparr> = (ps ! k)\<lparr>acceleration := 0\<rparr>)"

subsection \<open>Reachable states\<close>



text \<open>
  The density pass as the specification has it: particle \<open>i\<close> with the density, the volume
  and the pressure written from the two sums over the state \<open>s\<close> from before the pass, and
  the state in which the particles of \<open>D\<close> have been written so.
\<close>

definition previousDensityUpdate :: "SPH \<Rightarrow> nat \<Rightarrow> Particle" where
  "previousDensityUpdate s i =
     (particles s ! i)
       \<lparr>density := rawSum s i / correctionSum s i,
        volume := mass (particles s ! i) / (rawSum s i / correctionSum s i),
        pressure := rawSum s i / restDensity s - 1\<rparr>"

definition previousDensityPass :: "SPH \<Rightarrow> nat set \<Rightarrow> SPH" where
  "previousDensityPass s D =
     s\<lparr>particles := map (\<lambda>k. if k \<in> D then previousDensityUpdate s k else particles s ! k)
                       [0 ..< length (particles s)]\<rparr>"

subsection \<open>The collision loop, one iteration at a time\<close>

text \<open>
  The local variables of the loop (\<^verbatim>\<open>position\<close>, \<^verbatim>\<open>newPosition\<close>, \<^verbatim>\<open>movement\<close>,
  \<^verbatim>\<open>movementLeft\<close>, \<^verbatim>\<open>velocity\<close>), the test of its \<^verbatim>\<open>if\<close>, the branch of the collision and the
  final branch.
\<close>

type_synonym MoveState = "QVector3D \<times> QVector3D \<times> QVector3D \<times> QVector3D \<times> QVector3D"

definition collides :: "Geometry \<Rightarrow> MoveState \<Rightarrow> bool" where
  "collides c st =
     (case st of (pos, newPosition, movement, movementLeft, vel) \<Rightarrow>
        (case c \<lparr>origin = pos, direction = normalized movement\<rparr> of
           None \<Rightarrow> False
         | Some intersection \<Rightarrow>
             length_v (scaled (rayParameterT intersection) (normalized movement))
               < length_v movementLeft))"

definition respond :: "Geometry \<Rightarrow> MoveState \<Rightarrow> MoveState" where
  "respond c st =
     (case st of (pos, newPosition, movement, movementLeft, vel) \<Rightarrow>
        (case c \<lparr>origin = pos, direction = normalized movement\<rparr> of
           None \<Rightarrow> st
         | Some intersection \<Rightarrow>
             let nrm = normal intersection;
                 pos1 = position_i intersection;
                 movementLeft' = newPosition - pos1;
                 movement' = movementLeft' - scaled (dotProduct movementLeft' nrm) nrm;
                 pos2 = pos1 - scaled bias nrm;
                 newPosition' = pos2 + movement';
                 vel' = vel - scaled (dotProduct vel nrm) nrm
             in (pos2, newPosition', movement', movementLeft', vel')))"

definition commit :: "MoveState \<Rightarrow> QVector3D \<times> QVector3D" where
  "commit st = (case st of (pos, newPosition, movement, movementLeft, vel) \<Rightarrow> (pos + movement, vel))"

definition collisionLoop_st :: "Geometry \<Rightarrow> MoveState \<Rightarrow> (QVector3D \<times> QVector3D) option" where
  "collisionLoop_st c st =
     (case st of (pos, newPosition, movement, movementLeft, vel) \<Rightarrow>
        collisionLoop c pos newPosition movement movementLeft vel)"

subsection \<open>Grid consistency\<close>

text \<open>
  Every particle stores the index of the cell that contains its position, its index
  occurs once in the bucket of that cell, and it occurs in the bucket of no other cell.
\<close>

definition gridConsistent :: "SPH \<Rightarrow> bool" where
  "gridConsistent s \<longleftrightarrow>
     (\<forall>i<length (particles s).
        cellIndex (particles s ! i) = cellIndex_g (grid s) (position (particles s ! i))
        \<and> (\<forall>c. count_list (cellParticles (grid s) c) i
                 = (if c = cellIndex (particles s ! i) then 1 else 0)))"

subsection \<open>Containers\<close>

text \<open>
  Modelled from the spec: \<^verbatim>\<open>Geometry::intersect\<close> is not part of the source at hand; the
  contract is that a ray either misses or hits, with the position of the hit, the surface
  normal there and the parametric distance. \<open>planarBoundary n c\<close> is the container whose
  boundary is the plane of the points \<open>x\<close> with \<open>x \<cdot> n = c\<close> and whose outward normal is \<open>n\<close>:
  a ray that runs along the plane or away from it misses, a ray towards it hits it at the
  parameter where it meets the plane.
\<close>

definition planarBoundary :: "QVector3D \<Rightarrow> real \<Rightarrow> Geometry" where
  "planarBoundary n c ray =
     (let denom = dotProduct (direction ray) n
      in if denom \<le> 0 then None
         else let t = (c - dotProduct (origin ray) n) / denom
              in if t < 0 then None
                 else Some \<lparr>position_i = origin ray + scaled t (direction ray), normal = n,
                            rayParameterT = t\<rparr>)"

text \<open>
  A container that answers every ray with a hit at the origin, at the parameter 0, on a
  surface of normal \<open>(0, 1, 0)\<close>.
\<close>

definition stickyContainer :: Geometry where
  "stickyContainer ray = Some \<lparr>position_i = 0, normal = QVector3D 0 1 0, rayParameterT = 0\<rparr>"

subsection \<open>Concrete systems\<close>

text \<open>
  A grid of one cell, and a system of smoothing radius 1 and rest density 1 as the
  constructor sets it up, around a given list of particles, all in cell 0.
\<close>

definition restingParticle :: Particle where
  "restingParticle =
     \<lparr>position = 0, velocity = 0, acceleration = 0, mass = 1, density = 1, volume = 1,
      pressure = 0, cellIndex = 0\<rparr>"

definition oneCellGrid :: "nat list \<Rightarrow> Grid" where
  "oneCellGrid ks =
     \<lparr>cellParticles = (\<lambda>c. if c = 0 then ks else []), neighborhood = (\<lambda>c. [c]),
      cellIndex_g = (\<lambda>p. 0)\<rparr>"

definition unitSystem :: "Particle list \<Rightarrow> SPH" where
  "unitSystem ps =
     \<lparr>container = (\<lambda>r. None), coeffPoly6 = 315 / (64 * pi), coeffSpiky = 45 / pi,
      coeffVisc = 45 / pi, restDensity = 1, smoothingRadius = 1, smoothingRadius2 = 1,
      viscosity = 1, pressure_sph = 1, surfaceTension = 1, maxDeltaTime = 1,
      gravity = QVector3D 0 (- 9.8) 0, particles = ps, grid = oneCellGrid [0 ..< length ps]\<rparr>"

text \<open>
  Two particles of mass 1 at the same point of the one cell, with the stored densities 1
  and 2.
\<close>

definition twoParticles :: SPH where
  "twoParticles = unitSystem [restingParticle, restingParticle\<lparr>density := 2\<rparr>]"

text \<open>Two particles at the same point, the second one moving along the first axis.\<close>

definition shearPair :: SPH where
  "shearPair = unitSystem [restingParticle, restingParticle\<lparr>velocity := QVector3D 1 0 0\<rparr>]"

text \<open>
  One particle of mass 0 and volume 0, as the seeding leaves it for a total volume of 0.
\<close>

definition masslessParticle :: SPH where
  "masslessParticle = unitSystem [restingParticle\<lparr>mass := 0, volume := 0\<rparr>]"



text \<open>One particle at rest, one unit above a floor at height \<open>- 1\<close>.\<close>

definition deepFloorSystem :: SPH where
  "deepFloorSystem =
     (unitSystem [restingParticle])\<lparr>container := planarBoundary (QVector3D 0 (- 1) 0) 1\<rparr>"

text \<open>
  One particle that moves along the first axis, inside the container that answers every
  ray with the same hit.
\<close>

definition stickySystem :: SPH where
  "stickySystem =
     (unitSystem [restingParticle\<lparr>velocity := QVector3D 1 0 0\<rparr>])\<lparr>container := stickyContainer\<rparr>"

text \<open>
  A grid of two cells, the points of negative height in cell 1 and the others in cell 0,
  each cell a neighbour of both; a system on it with one particle that is about to fall
  from cell 0 into cell 1; and the same system before its seeding, with empty buckets.
\<close>

definition twoCellGrid :: "nat list \<Rightarrow> nat list \<Rightarrow> Grid" where
  "twoCellGrid ks0 ks1 =
     \<lparr>cellParticles = (\<lambda>c. if c = 0 then ks0 else if c = 1 then ks1 else []),
      neighborhood = (\<lambda>c. [0, 1]),
      cellIndex_g = (\<lambda>p. if yp p < 0 then 1 else 0)\<rparr>"

definition fallingSystem :: SPH where
  "fallingSystem =
     (unitSystem [restingParticle\<lparr>position := QVector3D 0 (1 / 2000) 0\<rparr>])
       \<lparr>grid := twoCellGrid [0] []\<rparr>"

definition unseededSystem :: SPH where
  "unseededSystem = (unitSystem [restingParticle\<lparr>mass := 0, density := 0, volume := 0\<rparr>])
       \<lparr>grid := twoCellGrid [] []\<rparr>"




section \<open>Theorems\<close>

subsection \<open>Vectors\<close>

lemma QVector3D_sel [simp]:
  "xp (u + v) = xp u + xp v" "yp (u + v) = yp u + yp v" "zp (u + v) = zp u + zp v"
  "xp (u - v) = xp u - xp v" "yp (u - v) = yp u - yp v" "zp (u - v) = zp u - zp v"
  "xp (- v) = - xp v" "yp (- v) = - yp v" "zp (- v) = - zp v"
  "xp 0 = 0" "yp 0 = 0" "zp 0 = 0"
  "xp (scaled k v) = k * xp v" "yp (scaled k v) = k * yp v" "zp (scaled k v) = k * zp v"
  by (simp_all add: plus_QVector3D_def minus_QVector3D_def uminus_QVector3D_def
      zero_QVector3D_def scaled_def)

subsection \<open>Kernels\<close>

text \<open>
  C6. With a smoothing radius \<open>h \<noteq> 0\<close>, the constructor succeeds and the kernels are the
  reference formulas: the density kernel is \<open>315 / (64 \<pi> h\<^sup>9) (h\<^sup>2 - r\<^sup>2)\<^sup>3\<close>, its gradient
  term is \<open>- 3 \<cdot> 315 / (64 \<pi> h\<^sup>9) (h\<^sup>2 - r\<^sup>2)\<^sup>2\<close>, the pressure kernel is
  \<open>45 / (\<pi> h\<^sup>6) (h - r)\<^sup>2 / r\<close> for \<open>r \<noteq> 0\<close> and \<open>0\<close> at \<open>r = 0\<close>, and the viscosity kernel is
  \<open>45 / (\<pi> h\<^sup>6) (h - r)\<close>.
\<close>

theorem kernels_reference_formulas:
  assumes "h \<noteq> 0"
  shows "\<exists>s'. SPH_kernels s h = Inr s'
    \<and> (\<forall>r2. densityKernel s' r2 = 315 / (64 * pi * h ^ 9) * (h\<^sup>2 - r2) ^ 3)
    \<and> (\<forall>r2. densitykernelGradient s' r2 = - 3 * (315 / (64 * pi * h ^ 9)) * (h\<^sup>2 - r2)\<^sup>2)
    \<and> (\<forall>r. r \<noteq> 0 \<longrightarrow> pressureKernel s' r = 45 / (pi * h ^ 6) * (h - r)\<^sup>2 / r)
    \<and> pressureKernel s' 0 = 0
    \<and> (\<forall>r. viscosityKernel s' r = 45 / (pi * h ^ 6) * (h - r))"
proof -
  let ?s0 = "s\<lparr>coeffPoly6 := 0, coeffSpiky := 0, coeffVisc := 0,
                smoothingRadius := h, smoothingRadius2 := h * h\<rparr>"
  let ?s' = "?s0\<lparr>coeffPoly6 := 315 / (64 * pi * h ^ 9),
                 coeffSpiky := 45 / (pi * h ^ 6),
                 coeffVisc := 45 / (pi * h ^ 6)\<rparr>"
  have h6: "h * h * (h * h) * (h * h) = h ^ 6" and h9: "h ^ 6 * (h * h) * h = h ^ 9"
    by (simp_all add: power_numeral_reduce numeral_eq_Suc)
  have run: "SPH_kernels s h = Inr ?s'"
    using assms by (simp add: SPH_kernels_def initializeCoefficients_def Let_def h6 h9)
  have "densityKernel ?s' r2 = 315 / (64 * pi * h ^ 9) * (h\<^sup>2 - r2) ^ 3" for r2
    by (simp add: densityKernel_def Let_def power2_eq_square power3_eq_cube)
  moreover have "densitykernelGradient ?s' r2 = - 3 * (315 / (64 * pi * h ^ 9)) * (h\<^sup>2 - r2)\<^sup>2" for r2
    by (simp add: densitykernelGradient_def Let_def power2_eq_square)
  moreover have "r \<noteq> 0 \<longrightarrow> pressureKernel ?s' r = 45 / (pi * h ^ 6) * (h - r)\<^sup>2 / r" for r
    by (simp add: pressureKernel_def Let_def power2_eq_square)
  moreover have "pressureKernel ?s' 0 = 0"
    by (simp add: pressureKernel_def)
  moreover have "viscosityKernel ?s' r = 45 / (pi * h ^ 6) * (h - r)" for r
    by (simp add: viscosityKernel_def)
  ultimately show ?thesis
    using run by blast
qed

theorem kernels_reference_formulas_witness:
  "\<exists>s'. SPH_kernels
      \<lparr>container = (\<lambda>r. None), coeffPoly6 = 0, coeffSpiky = 0, coeffVisc = 0, restDensity = 1,
       smoothingRadius = 0, smoothingRadius2 = 0, viscosity = 0, pressure_sph = 0,
       surfaceTension = 0, maxDeltaTime = 1, gravity = 0, particles = [],
       grid = \<lparr>cellParticles = (\<lambda>c. []), neighborhood = (\<lambda>c. [c]), cellIndex_g = (\<lambda>p. 0)\<rparr>\<rparr> 2 = Inr s'
    \<and> densityKernel s' 1 = 315 / (64 * pi * 2 ^ 9) * 27
    \<and> pressureKernel s' 1 = 45 / (pi * 2 ^ 6)
    \<and> pressureKernel s' 0 = 0
    \<and> viscosityKernel s' 1 = 45 / (pi * 2 ^ 6)"
proof -
  have h: "(2::real) \<noteq> 0" by simp
  from kernels_reference_formulas [OF h] obtain s' where
    "SPH_kernels
      \<lparr>container = (\<lambda>r. None), coeffPoly6 = 0, coeffSpiky = 0, coeffVisc = 0, restDensity = 1,
       smoothingRadius = 0, smoothingRadius2 = 0, viscosity = 0, pressure_sph = 0,
       surfaceTension = 0, maxDeltaTime = 1, gravity = 0, particles = [],
       grid = \<lparr>cellParticles = (\<lambda>c. []), neighborhood = (\<lambda>c. [c]), cellIndex_g = (\<lambda>p. 0)\<rparr>\<rparr> 2 = Inr s'"
    and "\<forall>r2. densityKernel s' r2 = 315 / (64 * pi * 2 ^ 9) * (2\<^sup>2 - r2) ^ 3"
    and "\<forall>r. r \<noteq> 0 \<longrightarrow> pressureKernel s' r = 45 / (pi * 2 ^ 6) * (2 - r)\<^sup>2 / r"
    and "pressureKernel s' 0 = 0"
    and "\<forall>r. viscosityKernel s' r = 45 / (pi * 2 ^ 6) * (2 - r)"
    by blast
  then show ?thesis
    by (intro exI [of _ s']) simp
qed

subsection \<open>Density solver\<close>

lemma densityCell_Inr:
  "densityCell s p ks (d, c) = Inr (d', c') \<Longrightarrow>
     d' = d + (\<Sum>k\<leftarrow>filter (inRadius s (position p)) ks. W s (position p) k * mass (particles s ! k))
   \<and> c' = c + (\<Sum>k\<leftarrow>filter (inRadius s (position p)) ks.
                 W s (position p) k * mass (particles s ! k) / density (particles s ! k))"
proof (induction ks arbitrary: d c)
  case Nil
  then show ?case by simp
next
  case (Cons k ks)
  from Cons.prems have k: "k < length (particles s)"
    by (simp split: if_splits)
  show ?case
  proof (cases "inRadius s (position p) k")
    case True
    with Cons.prems k have nz: "density (particles s ! k) \<noteq> 0"
      and rec: "densityCell s p ks (d + W s (position p) k * mass (particles s ! k),
          c + W s (position p) k * mass (particles s ! k) / density (particles s ! k)) = Inr (d', c')"
      by (simp_all add: Let_def inRadius_def W_def split: if_splits)
    from Cons.IH [OF rec] True show ?thesis
      by simp
  next
    case False
    with Cons.prems k have rec: "densityCell s p ks (d, c) = Inr (d', c')"
      by (simp add: Let_def inRadius_def)
    from Cons.IH [OF rec] False show ?thesis
      by simp
  qed
qed

lemma densityCell_append:
  "densityCell s p (xs @ ys) acc =
     (case densityCell s p xs acc of Inl e \<Rightarrow> Inl e | Inr acc' \<Rightarrow> densityCell s p ys acc')"
  by (induction xs arbitrary: acc) (auto simp: Let_def)

lemma densityCells_concat:
  "densityCells s p cs acc = densityCell s p (concat (map (cellParticles (grid s)) cs)) acc"
  by (induction cs arbitrary: acc) (auto simp: densityCell_append split: sum.splits)

lemma densitySums_Inr:
  "densitySums s i = Inr (d, c) \<Longrightarrow> d = rawSum s i \<and> c = correctionSum s i"
  unfolding densitySums_def Let_def densityCells_concat rawSum_def correctionSum_def neighbors_def
  by (drule densityCell_Inr) simp

lemma computeDensity_Inr:
  assumes "computeDensity s i = Inr s'"
  shows "s' = s\<lparr>particles := (particles s)[i := (particles s ! i)
             \<lparr>density := rawSum s i / correctionSum s i,
              volume := mass (particles s ! i) / (rawSum s i / correctionSum s i),
              pressure := rawSum s i / restDensity s - 1\<rparr>]\<rparr>"
  using assms
  by (auto simp: computeDensity_def pressure_fn_def Let_def
      split: sum.splits prod.splits if_splits dest!: densitySums_Inr)


lemma computeDensitiesLoop_append:
  "computeDensitiesLoop (xs @ ys) s =
     (case computeDensitiesLoop xs s of Inl e \<Rightarrow> Inl e | Inr s' \<Rightarrow> computeDensitiesLoop ys s')"
  by (induction xs arbitrary: s) (auto split: sum.splits)

lemma computeDensitiesLoop_frame:
  "computeDensitiesLoop js s = Inr s' \<Longrightarrow>
     s' = s\<lparr>particles := particles s'\<rparr> \<and> length (particles s') = length (particles s)
     \<and> (\<forall>j. j \<notin> set js \<longrightarrow> particles s' ! j = particles s ! j)"
proof (induction js arbitrary: s)
  case Nil
  then show ?case by simp
next
  case (Cons i js)
  from Cons.prems obtain s1 where s1: "computeDensity s i = Inr s1"
    and rest: "computeDensitiesLoop js s1 = Inr s'"
    by (auto split: sum.splits)
  from computeDensity_Inr [OF s1] obtain p where p: "s1 = s\<lparr>particles := (particles s)[i := p]\<rparr>"
    by blast
  from Cons.IH [OF rest] have "s' = s1\<lparr>particles := particles s'\<rparr>"
    and "length (particles s') = length (particles s1)"
    and "\<forall>j. j \<notin> set js \<longrightarrow> particles s' ! j = particles s1 ! j"
    by simp_all
  with p show ?case
    by (auto simp: nth_list_update)
qed

lemma upt_split_at: "i < n \<Longrightarrow> [0 ..< n] = [0 ..< i] @ i # [Suc i ..< n]"
  by (metis le_add1 less_imp_add_positive plus_nat.add_0 upt_add_eq_append upt_conv_Cons)

lemma computeDensities_at:
  assumes run: "computeDensities s = Inr s'" and i: "i < length (particles s)"
  shows "computeDensitiesLoop [0 ..< i] s
           = Inr (s\<lparr>particles := take i (particles s') @ drop i (particles s)\<rparr>)
       \<and> density (particles s' ! i)
           = rawSum (s\<lparr>particles := take i (particles s') @ drop i (particles s)\<rparr>) i
             / correctionSum (s\<lparr>particles := take i (particles s') @ drop i (particles s)\<rparr>) i
       \<and> volume (particles s' ! i) = mass (particles s' ! i) / density (particles s' ! i)
       \<and> pressure (particles s' ! i)
           = rawSum (s\<lparr>particles := take i (particles s') @ drop i (particles s)\<rparr>) i
             / restDensity s - 1"
proof -
  let ?n = "length (particles s)"
  let ?m = "s\<lparr>particles := take i (particles s') @ drop i (particles s)\<rparr>"
  from run i obtain s1 s2 where a: "computeDensitiesLoop [0 ..< i] s = Inr s1"
    and b: "computeDensity s1 i = Inr s2"
    and c: "computeDensitiesLoop [Suc i ..< ?n] s2 = Inr s'"
    by (auto simp: computeDensities_def upt_split_at [OF i] computeDensitiesLoop_append
        split: sum.splits)
  note fa = computeDensitiesLoop_frame [OF a]
  note fc = computeDensitiesLoop_frame [OF c]
  note ub = computeDensity_Inr [OF b]
  from fa have len1: "length (particles s1) = ?n" by simp
  from ub have len2: "length (particles s2) = length (particles s1)"
    by (metis SPH.select_convs(13) SPH.surjective SPH.update_convs(13) length_list_update)
  have "particles s1 = take i (particles s') @ drop i (particles s)"
  proof (rule nth_equalityI)
    show "length (particles s1) = length (take i (particles s') @ drop i (particles s))"
      using fc len1 len2 i by simp
  next
    fix j assume j: "j < length (particles s1)"
    show "particles s1 ! j = (take i (particles s') @ drop i (particles s)) ! j"
    proof (cases "j < i")
      case True
      then have "particles s' ! j = particles s2 ! j"
        using fc by simp
      also have "\<dots> = particles s1 ! j"
        using True by (subst ub) simp
      finally show ?thesis
        using True fc len1 len2 i by (simp add: nth_append)
    next
      case False
      then have "particles s1 ! j = particles s ! j"
        using fa by simp
      then show ?thesis
        using False fc len1 len2 i j by (simp add: nth_append)
    qed
  qed
  with fa have s1: "s1 = ?m"
    by simp
  have "particles s' ! i = particles s2 ! i"
    using fc by simp
  also have "\<dots> = (particles s1 ! i)
             \<lparr>density := rawSum s1 i / correctionSum s1 i,
              volume := mass (particles s1 ! i) / (rawSum s1 i / correctionSum s1 i),
              pressure := rawSum s1 i / restDensity s1 - 1\<rparr>"
    using i len1 by (subst ub) simp
  finally have "particles s' ! i = (particles s1 ! i)
             \<lparr>density := rawSum s1 i / correctionSum s1 i,
              volume := mass (particles s1 ! i) / (rawSum s1 i / correctionSum s1 i),
              pressure := rawSum s1 i / restDensity s1 - 1\<rparr>" .
  moreover have "restDensity s1 = restDensity s"
    by (subst s1) simp
  ultimately show ?thesis
    using a unfolding s1 [symmetric] by simp
qed


lemma computeDensity_keeps:
  assumes "computeDensity s i = Inr s'"
  shows "grid s' = grid s \<and> length (particles s') = length (particles s)
     \<and> (\<forall>k. position (particles s' ! k) = position (particles s ! k)
            \<and> mass (particles s' ! k) = mass (particles s ! k)
            \<and> cellIndex (particles s' ! k) = cellIndex (particles s ! k))"
proof -
  define p' where "p' = (particles s ! i)
             \<lparr>density := rawSum s i / correctionSum s i,
              volume := mass (particles s ! i) / (rawSum s i / correctionSum s i),
              pressure := rawSum s i / restDensity s - 1\<rparr>"
  from computeDensity_Inr [OF assms] have eq: "s' = s\<lparr>particles := (particles s)[i := p']\<rparr>"
    by (simp add: p'_def)
  have "position ((particles s)[i := p'] ! k) = position (particles s ! k)
      \<and> mass ((particles s)[i := p'] ! k) = mass (particles s ! k)
      \<and> cellIndex ((particles s)[i := p'] ! k) = cellIndex (particles s ! k)" for k
    by (cases "i < length (particles s)")
      (simp_all add: nth_list_update list_update_beyond p'_def)
  then show ?thesis
    by (simp add: eq)
qed

lemma computeDensitiesLoop_keeps:
  "computeDensitiesLoop js s = Inr s' \<Longrightarrow>
     grid s' = grid s \<and> length (particles s') = length (particles s)
     \<and> (\<forall>k. position (particles s' ! k) = position (particles s ! k)
            \<and> mass (particles s' ! k) = mass (particles s ! k)
            \<and> cellIndex (particles s' ! k) = cellIndex (particles s ! k))"
proof (induction js arbitrary: s)
  case Nil
  then show ?case by simp
next
  case (Cons i js)
  from Cons.prems obtain s1 where s1: "computeDensity s i = Inr s1"
    and rest: "computeDensitiesLoop js s1 = Inr s'"
    by (auto split: sum.splits)
  from computeDensity_keeps [OF s1] Cons.IH [OF rest] show ?case
    by simp
qed

lemma rawSum_frame:
  assumes "\<And>k. position (ps ! k) = position (particles s ! k)"
    and "\<And>k. mass (ps ! k) = mass (particles s ! k)"
    and "\<And>k. cellIndex (ps ! k) = cellIndex (particles s ! k)"
  shows "rawSum (s\<lparr>particles := ps\<rparr>) i = rawSum s i"
proof -
  have "inRadius (s\<lparr>particles := ps\<rparr>) pos = inRadius s pos" for pos
    by (simp add: fun_eq_iff inRadius_def assms)
  then show ?thesis
    by (simp add: rawSum_def neighbors_def W_def densityKernel_def Let_def assms)
qed

text \<open>
  C1 (amended). When the pass divides by no zero, every particle \<open>i\<close> ends with the density
  \<open>rawSum / correctionSum\<close>, both sums over the neighbours of \<open>i\<close> within \<open>r\<^sup>2 < h\<^sup>2\<close>: the raw
  sum of \<open>W r\<^sup>2 \<cdot> mass\<close>, which the pass does not change, and the correction sum of
  \<open>W r\<^sup>2 \<cdot> mass / density\<close> with the densities stored when the loop reaches \<open>i\<close>, in the
  state \<open>m\<close> that the iterations before \<open>i\<close> leave: the particles before \<open>i\<close> as the pass
  leaves them, the others as they were before the pass. The volume is the mass over that
  density. The pressure is \<open>rawSum / restDensity - 1\<close>: it comes from the raw sum, not from
  the corrected density.
\<close>

theorem computeDensities_result:
  assumes run: "computeDensities s = Inr s'" and i: "i < length (particles s)"
  shows "(let m = s\<lparr>particles := take i (particles s') @ drop i (particles s)\<rparr>
          in computeDensitiesLoop [0 ..< i] s = Inr m
             \<and> rawSum m i = rawSum s i
             \<and> density (particles s' ! i) = rawSum m i / correctionSum m i
             \<and> volume (particles s' ! i) = mass (particles s' ! i) / density (particles s' ! i)
             \<and> pressure (particles s' ! i) = rawSum m i / restDensity s - 1)"
proof -
  let ?ps = "take i (particles s') @ drop i (particles s)"
  from run have loop: "computeDensitiesLoop [0 ..< length (particles s)] s = Inr s'"
    by (simp only: computeDensities_def)
  from computeDensitiesLoop_keeps [OF loop]
  have len: "length (particles s') = length (particles s)"
    and pos: "\<And>k. position (particles s' ! k) = position (particles s ! k)"
    and mas: "\<And>k. mass (particles s' ! k) = mass (particles s ! k)"
    and cel: "\<And>k. cellIndex (particles s' ! k) = cellIndex (particles s ! k)"
    by blast+
  have nth: "?ps ! k = (if k < i then particles s' ! k else particles s ! k)" for k
    using i len by (simp add: nth_append)
  have "rawSum (s\<lparr>particles := ?ps\<rparr>) i = rawSum s i"
    by (rule rawSum_frame) (simp_all add: nth pos mas cel)
  with computeDensities_at [OF run i] show ?thesis
    unfolding Let_def by blast
qed

lemma lengthSquared_0 [simp]: "lengthSquared 0 = 0"
  by (simp add: lengthSquared_def)

lemma computeDensities_one:
  "computeDensities (unitSystem [restingParticle])
     = Inr (unitSystem [restingParticle\<lparr>pressure := 315 / (64 * pi) - 1\<rparr>])"
  by (simp add: computeDensities_def computeDensity_def densitySums_def unitSystem_def
      oneCellGrid_def restingParticle_def densityKernel_def pressure_fn_def Let_def)

text \<open>
  One particle of mass 1 and density 1 in a system of rest density 1: the corrected
  density stays 1, so \<open>density / restDensity - 1\<close> is 0, and the stored pressure is
  \<open>315 / (64 \<pi>) - 1\<close>.
\<close>

theorem pressure_from_corrected_density_counterexample:
  "\<not> isl (computeDensities (unitSystem [restingParticle]))
   \<and> pressure (particles (projr (computeDensities (unitSystem [restingParticle]))) ! 0)
       \<noteq> density (particles (projr (computeDensities (unitSystem [restingParticle]))) ! 0)
           / restDensity (unitSystem [restingParticle]) - 1"
proof -
  have "64 * pi < 315"
    using pi_less_4 by simp
  then have "315 / (64 * pi) \<noteq> 1"
    by simp
  then show ?thesis
    by (simp add: computeDensities_one) (simp add: unitSystem_def restingParticle_def)
qed

lemma computeDensity_two_0:
  "computeDensity twoParticles 0
     = Inr (unitSystem [restingParticle\<lparr>density := 4 / 3, volume := 3 / 4, pressure := 315 / (32 * pi) - 1\<rparr>,
                       restingParticle\<lparr>density := 2\<rparr>])"
  by (simp add: twoParticles_def computeDensity_def densitySums_def unitSystem_def
      oneCellGrid_def restingParticle_def densityKernel_def pressure_fn_def Let_def upt_rec [of 0])

lemma computeDensity_two_01:
  "computeDensity  (unitSystem [restingParticle\<lparr>density := 4 / 3, volume := 3 / 4, pressure := 315 / (32 * pi) - 1\<rparr>,
                       restingParticle\<lparr>density := 2\<rparr>]) (Suc 0)
     = Inr (unitSystem [restingParticle\<lparr>density := 4 / 3, volume := 3 / 4, pressure := 315 / (32 * pi) - 1\<rparr>,
                       restingParticle\<lparr>density := 8 / 5, volume := 5 / 8, pressure := 315 / (32 * pi) - 1\<rparr>])"
  by (simp add: twoParticles_def computeDensity_def densitySums_def unitSystem_def
      oneCellGrid_def restingParticle_def densityKernel_def pressure_fn_def Let_def upt_rec [of 0])

lemma sums_two:
  "rawSum twoParticles 1 = 315 / (32 * pi)" "correctionSum twoParticles 1 = 945 / (128 * pi)"
  by (simp_all add: rawSum_def correctionSum_def neighbors_def W_def inRadius_def twoParticles_def unitSystem_def
      oneCellGrid_def restingParticle_def densityKernel_def Let_def upt_rec [of 0])

lemma computeDensity_two_1:
  "computeDensity twoParticles (Suc 0)
     = Inr (unitSystem [restingParticle,
              restingParticle\<lparr>density := 4 / 3, volume := 3 / 4, pressure := 315 / (32 * pi) - 1\<rparr>])"
  by (simp add: twoParticles_def computeDensity_def densitySums_def unitSystem_def
      oneCellGrid_def restingParticle_def densityKernel_def pressure_fn_def Let_def upt_rec [of 0])

lemma computeDensity_two_10:
  "computeDensity (unitSystem [restingParticle,
              restingParticle\<lparr>density := 4 / 3, volume := 3 / 4, pressure := 315 / (32 * pi) - 1\<rparr>]) 0
     = Inr (unitSystem [restingParticle\<lparr>density := 8 / 7, volume := 7 / 8, pressure := 315 / (32 * pi) - 1\<rparr>,
              restingParticle\<lparr>density := 4 / 3, volume := 3 / 4, pressure := 315 / (32 * pi) - 1\<rparr>])"
  by (simp add: computeDensity_def densitySums_def unitSystem_def
      oneCellGrid_def restingParticle_def densityKernel_def pressure_fn_def Let_def upt_rec [of 0])

lemma computeDensities_two:
  "computeDensities twoParticles
     = Inr (unitSystem [restingParticle\<lparr>density := 4 / 3, volume := 3 / 4, pressure := 315 / (32 * pi) - 1\<rparr>,
                       restingParticle\<lparr>density := 8 / 5, volume := 5 / 8, pressure := 315 / (32 * pi) - 1\<rparr>])"
proof -
  have "[0 ..< length (particles twoParticles)] = [0, Suc 0]"
    by (simp add: twoParticles_def unitSystem_def upt_rec [of 0])
  then show ?thesis
    by (simp add: computeDensities_def computeDensity_two_0 computeDensity_two_01)
qed

theorem computeDensities_result_witness:
  "computeDensities twoParticles
     = Inr (unitSystem [restingParticle\<lparr>density := 4 / 3, volume := 3 / 4, pressure := 315 / (32 * pi) - 1\<rparr>,
                       restingParticle\<lparr>density := 8 / 5, volume := 5 / 8, pressure := 315 / (32 * pi) - 1\<rparr>])
   \<and> 1 < length (particles twoParticles)
   \<and> computeDensitiesLoop [0 ..< 1] twoParticles
       = Inr (unitSystem [restingParticle\<lparr>density := 4 / 3, volume := 3 / 4, pressure := 315 / (32 * pi) - 1\<rparr>,
                         restingParticle\<lparr>density := 2\<rparr>])
   \<and> rawSum (unitSystem [restingParticle\<lparr>density := 4 / 3, volume := 3 / 4, pressure := 315 / (32 * pi) - 1\<rparr>,
                         restingParticle\<lparr>density := 2\<rparr>]) 1 = rawSum twoParticles 1
   \<and> rawSum (unitSystem [restingParticle\<lparr>density := 4 / 3, volume := 3 / 4, pressure := 315 / (32 * pi) - 1\<rparr>,
                         restingParticle\<lparr>density := 2\<rparr>]) 1
       / correctionSum (unitSystem [restingParticle\<lparr>density := 4 / 3, volume := 3 / 4, pressure := 315 / (32 * pi) - 1\<rparr>,
                         restingParticle\<lparr>density := 2\<rparr>]) 1 = 8 / 5
   \<and> rawSum twoParticles 1 / restDensity twoParticles - 1 = 315 / (32 * pi) - 1"
proof -
  let ?p0 = "restingParticle\<lparr>density := 4 / 3, volume := 3 / 4, pressure := 315 / (32 * pi) - 1\<rparr>"
  let ?p1 = "restingParticle\<lparr>density := 8 / 5, volume := 5 / 8, pressure := 315 / (32 * pi) - 1\<rparr>"
  let ?m = "unitSystem [?p0, restingParticle\<lparr>density := 2\<rparr>]"
  have i: "1 < length (particles twoParticles)"
    by (simp add: twoParticles_def unitSystem_def)
  have m: "twoParticles\<lparr>particles := take 1 (particles (unitSystem [?p0, ?p1]))
      @ drop 1 (particles twoParticles)\<rparr> = ?m"
    by (simp add: twoParticles_def unitSystem_def)
  have r: "restDensity twoParticles = 1"
    by (simp add: twoParticles_def unitSystem_def)
  have d: "density (particles (unitSystem [?p0, ?p1]) ! 1) = 8 / 5"
    and p: "pressure (particles (unitSystem [?p0, ?p1]) ! 1) = 315 / (32 * pi) - 1"
    by (simp_all add: unitSystem_def restingParticle_def)
  from computeDensities_result [OF computeDensities_two i, unfolded Let_def m]
  have a: "computeDensitiesLoop [0 ..< 1] twoParticles = Inr ?m"
    and e: "rawSum ?m 1 = rawSum twoParticles 1"
    and b: "density (particles (unitSystem [?p0, ?p1]) ! 1) = rawSum ?m 1 / correctionSum ?m 1"
    and c: "pressure (particles (unitSystem [?p0, ?p1]) ! 1)
        = rawSum ?m 1 / restDensity twoParticles - 1"
    by blast+
  have b': "rawSum ?m 1 / correctionSum ?m 1 = 8 / 5"
    unfolding b [symmetric] by (rule d)
  have c': "rawSum twoParticles 1 / restDensity twoParticles - 1 = 315 / (32 * pi) - 1"
    unfolding e [symmetric] c [symmetric] by (rule p)
  from computeDensities_two i a e b' c' show ?thesis
    by blast
qed

text \<open>
  In a state whose densities differ, which no seeding and no step produces, the order of
  the particles does change the result of the pass. On two particles with the stored
  densities 1 and 2, the sums over the densities from before the pass give particle 1 the
  density \<open>4 / 3\<close>. The pass, in the order of the loop, gives it \<open>8 / 5\<close>: its correction sum
  reads the density that the pass has just written into particle 0. Run in the other
  order, the pass gives particle 1 the density \<open>4 / 3\<close>.
\<close>

lemma computeDensitiesLoop_order_twoParticles:
  "\<not> isl (computeDensities twoParticles)
   \<and> density (particles (projr (computeDensities twoParticles)) ! 1) = 8 / 5
   \<and> rawSum twoParticles 1 / correctionSum twoParticles 1 = 4 / 3
   \<and> \<not> isl (computeDensitiesLoop [1, 0] twoParticles)
   \<and> density (particles (projr (computeDensitiesLoop [1, 0] twoParticles)) ! 1) = 4 / 3"
proof -
  have "computeDensitiesLoop [Suc 0, 0] twoParticles
     = Inr (unitSystem [restingParticle\<lparr>density := 8 / 7, volume := 7 / 8, pressure := 315 / (32 * pi) - 1\<rparr>,
              restingParticle\<lparr>density := 4 / 3, volume := 3 / 4, pressure := 315 / (32 * pi) - 1\<rparr>])"
    by (simp add: computeDensity_two_1 computeDensity_two_10)
  then have d: "\<not> isl (computeDensitiesLoop [1, 0] twoParticles)"
    and e: "density (particles (projr (computeDensitiesLoop [1, 0] twoParticles)) ! 1) = 4 / 3"
    by (simp_all add: unitSystem_def)
  have "[0 ..< length (particles twoParticles)] = [0, Suc 0]"
    by (simp add: twoParticles_def unitSystem_def upt_rec [of 0])
  then have "computeDensities twoParticles
     = Inr (unitSystem [restingParticle\<lparr>density := 4 / 3, volume := 3 / 4, pressure := 315 / (32 * pi) - 1\<rparr>,
                       restingParticle\<lparr>density := 8 / 5, volume := 5 / 8, pressure := 315 / (32 * pi) - 1\<rparr>])"
    by (simp add: computeDensities_def computeDensity_two_0 computeDensity_two_01)
  then have a: "\<not> isl (computeDensities twoParticles)"
    and b: "density (particles (projr (computeDensities twoParticles)) ! 1) = 8 / 5"
    by (simp_all add: unitSystem_def)
  have c: "rawSum twoParticles 1 / correctionSum twoParticles 1 = 4 / 3"
    unfolding sums_two by simp
  from a b c d e show ?thesis
    by blast
qed

subsection \<open>Force solver\<close>

lemma forceCell_Inr:
  "forceCell s p ks (pf, vf, tf, c) = Inr (pf', vf', tf', c') \<Longrightarrow>
     pf' = pf - (\<Sum>k\<leftarrow>filter (inRadius s (position p)) ks.
              scaled (pressureKernel s (length_v (position p - position (particles s ! k)))
                        * (0.5 * (pressure (particles s ! k) + pressure p))
                        * volume (particles s ! k))
                (position p - position (particles s ! k)))
   \<and> vf' = vf + (\<Sum>k\<leftarrow>filter (inRadius s (position p)) ks.
           scaled (viscosityKernel s (length_v (position p - position (particles s ! k)))
                     * volume (particles s ! k))
             (velocity (particles s ! k) - velocity p))
   \<and> tf' = tf + (\<Sum>k\<leftarrow>filter (inRadius s (position p)) ks.
           scaled (W s (position p) k) (position p - position (particles s ! k)))
   \<and> c' = c + (\<Sum>k\<leftarrow>filter (inRadius s (position p)) ks. W s (position p) k * volume (particles s ! k))"
proof (induction ks arbitrary: pf vf tf c)
  case Nil
  then show ?case by simp
next
  case (Cons k ks)
  from Cons.prems have k: "k < length (particles s)"
    by (simp split: if_splits)
  show ?case
  proof (cases "inRadius s (position p) k")
    case True
    with Cons.prems k have rec: "forceCell s p ks
        (pf - scaled (pressureKernel s (length_v (position p - position (particles s ! k)))
                        * (0.5 * (pressure (particles s ! k) + pressure p))
                        * volume (particles s ! k))
                (position p - position (particles s ! k)),
         vf + scaled (viscosityKernel s (length_v (position p - position (particles s ! k)))
                     * volume (particles s ! k))
             (velocity (particles s ! k) - velocity p),
         tf + scaled (W s (position p) k) (position p - position (particles s ! k)),
         c + W s (position p) k * volume (particles s ! k)) = Inr (pf', vf', tf', c')"
      by (simp add: Let_def inRadius_def W_def length_v_def mult.commute)
    from Cons.IH [OF rec] True show ?thesis
      by (simp add: algebra_simps)
  next
    case False
    with Cons.prems k have rec: "forceCell s p ks (pf, vf, tf, c) = Inr (pf', vf', tf', c')"
      by (simp add: Let_def inRadius_def)
    from Cons.IH [OF rec] False show ?thesis
      by simp
  qed
qed

lemma forceCell_append:
  "forceCell s p (xs @ ys) acc =
     (case forceCell s p xs acc of Inl e \<Rightarrow> Inl e | Inr acc' \<Rightarrow> forceCell s p ys acc')"
proof (induction xs arbitrary: acc)
  case Nil
  then show ?case by simp
next
  case (Cons k ks)
  obtain pf vf tf c where acc: "acc = (pf, vf, tf, c)"
    by (cases acc) 
  show ?case
    unfolding acc by (simp add: Cons.IH Let_def)
qed

lemma forceCells_concat:
  "forceCells s p cs acc = forceCell s p (concat (map (cellParticles (grid s)) cs)) acc"
  by (induction cs arbitrary: acc) (auto simp: forceCell_append split: sum.splits)

lemma forceSums_Inr:
  "forceSums s i = Inr (pf, vf, tf, c) \<Longrightarrow>
     pf = pressureForceSum s i \<and> vf = viscosityForceSum s i \<and> tf = tensionForceSum s i
     \<and> c = forceCorrectionSum s i"
  unfolding forceSums_def Let_def forceCells_concat pressureForceSum_def viscosityForceSum_def
    tensionForceSum_def forceCorrectionSum_def neighbors_def
  by (drule forceCell_Inr) simp


lemma computeForce_Inr:
  assumes "computeForce g s i = Inr s'"
  shows "s' = s\<lparr>particles := (particles s)[i := (particles s ! i)
             \<lparr>acceleration := forceAcceleration g s i\<rparr>]\<rparr>
         \<and> forceCorrectionSum s i \<noteq> 0 \<and> density (particles s ! i) \<noteq> 0"
  using assms
  by (auto simp: computeForce_def forceAcceleration_def Let_def
      split: sum.splits prod.splits if_splits dest!: forceSums_Inr)

lemma accelerationFrame_refl: "accelerationFrame ps ps"
  by (simp add: accelerationFrame_def)

lemma accelerationFrame_fields:
  assumes "accelerationFrame ps ps'"
  shows "position (ps' ! k) = position (ps ! k)" "velocity (ps' ! k) = velocity (ps ! k)"
    "mass (ps' ! k) = mass (ps ! k)" "density (ps' ! k) = density (ps ! k)"
    "volume (ps' ! k) = volume (ps ! k)" "pressure (ps' ! k) = pressure (ps ! k)"
    "cellIndex (ps' ! k) = cellIndex (ps ! k)"
proof -
  from assms have e: "(ps' ! k)\<lparr>acceleration := 0\<rparr> = (ps ! k)\<lparr>acceleration := 0\<rparr>"
    by (simp add: accelerationFrame_def)
  from arg_cong [OF e, of position] show "position (ps' ! k) = position (ps ! k)" by simp
  from arg_cong [OF e, of velocity] show "velocity (ps' ! k) = velocity (ps ! k)" by simp
  from arg_cong [OF e, of mass] show "mass (ps' ! k) = mass (ps ! k)" by simp
  from arg_cong [OF e, of density] show "density (ps' ! k) = density (ps ! k)" by simp
  from arg_cong [OF e, of volume] show "volume (ps' ! k) = volume (ps ! k)" by simp
  from arg_cong [OF e, of pressure] show "pressure (ps' ! k) = pressure (ps ! k)" by simp
  from arg_cong [OF e, of cellIndex] show "cellIndex (ps' ! k) = cellIndex (ps ! k)" by simp
qed

lemma accelerationFrame_update:
  assumes "accelerationFrame ps ps'"
  shows "accelerationFrame ps (ps'[i := (ps' ! i)\<lparr>acceleration := a\<rparr>])"
proof -
  have "(ps'[i := (ps' ! i)\<lparr>acceleration := a\<rparr>] ! k)\<lparr>acceleration := 0\<rparr>
      = (ps' ! k)\<lparr>acceleration := 0\<rparr>" for k
    by (cases "i < length ps'") (simp_all add: nth_list_update list_update_beyond)
  with assms show ?thesis
    by (simp add: accelerationFrame_def)
qed

lemma kernels_particles_update [simp]:
  "densityKernel (s\<lparr>particles := ps\<rparr>) = densityKernel s"
  "densitykernelGradient (s\<lparr>particles := ps\<rparr>) = densitykernelGradient s"
  "pressureKernel (s\<lparr>particles := ps\<rparr>) = pressureKernel s"
  "viscosityKernel (s\<lparr>particles := ps\<rparr>) = viscosityKernel s"
  by (simp_all add: fun_eq_iff densityKernel_def densitykernelGradient_def pressureKernel_def
      viscosityKernel_def)

lemma neighbors_frame:
  assumes "accelerationFrame (particles s) ps'"
  shows "neighbors (s\<lparr>particles := ps'\<rparr>) pos c = neighbors s pos c"
    and "W (s\<lparr>particles := ps'\<rparr>) pos k = W s pos k"
proof -
  have "inRadius (s\<lparr>particles := ps'\<rparr>) pos = inRadius s pos"
    by (simp add: fun_eq_iff inRadius_def accelerationFrame_fields [OF assms])
  then show "neighbors (s\<lparr>particles := ps'\<rparr>) pos c = neighbors s pos c"
    by (simp add: neighbors_def)
  show "W (s\<lparr>particles := ps'\<rparr>) pos k = W s pos k"
    by (simp add: W_def accelerationFrame_fields [OF assms])
qed

lemma forceAcceleration_frame:
  assumes "accelerationFrame (particles s) ps'"
  shows "forceAcceleration g (s\<lparr>particles := ps'\<rparr>) i = forceAcceleration g s i"
proof -
  note f = accelerationFrame_fields [OF assms] neighbors_frame [OF assms]
  have "forceCorrectionSum (s\<lparr>particles := ps'\<rparr>) i = forceCorrectionSum s i"
    by (simp add: forceCorrectionSum_def Let_def f)
  moreover have "viscosityForceSum (s\<lparr>particles := ps'\<rparr>) i = viscosityForceSum s i"
    by (simp add: viscosityForceSum_def Let_def f)
  moreover have "pressureForceSum (s\<lparr>particles := ps'\<rparr>) i = pressureForceSum s i"
    by (simp add: pressureForceSum_def Let_def f)
  moreover have "tensionForceSum (s\<lparr>particles := ps'\<rparr>) i = tensionForceSum s i"
    by (simp add: tensionForceSum_def Let_def f)
  ultimately show ?thesis
    by (simp add: forceAcceleration_def f)
qed

lemma computeForcesLoop_Inr:
  assumes "computeForcesLoop g js (s\<lparr>particles := ps1\<rparr>) = Inr s'"
    and "accelerationFrame (particles s) ps1"
  shows "s' = s\<lparr>particles := particles s'\<rparr> \<and> accelerationFrame (particles s) (particles s')
     \<and> (\<forall>i \<in> set js. i < length (particles s) \<longrightarrow>
           acceleration (particles s' ! i) = forceAcceleration g s i)
     \<and> (\<forall>j. j \<notin> set js \<longrightarrow> acceleration (particles s' ! j) = acceleration (ps1 ! j))"
  using assms
proof (induction js arbitrary: ps1)
  case Nil
  then show ?case by auto
next
  case (Cons j js)
  let ?ps2 = "ps1[j := (ps1 ! j)\<lparr>acceleration := forceAcceleration g s j\<rparr>]"
  from Cons.prems(1) obtain s2 where s2: "computeForce g (s\<lparr>particles := ps1\<rparr>) j = Inr s2"
    and rest: "computeForcesLoop g js s2 = Inr s'"
    by (auto split: sum.splits)
  from computeForce_Inr [OF s2] forceAcceleration_frame [OF Cons.prems(2)]
  have s2': "s2 = s\<lparr>particles := ?ps2\<rparr>"
    by simp
  have frame2: "accelerationFrame (particles s) ?ps2"
    using Cons.prems(2) by (rule accelerationFrame_update)
  from Cons.IH [OF rest [unfolded s2'] frame2]
  have a: "s' = s\<lparr>particles := particles s'\<rparr>"
    and b: "accelerationFrame (particles s) (particles s')"
    and c: "\<forall>i \<in> set js. i < length (particles s) \<longrightarrow>
           acceleration (particles s' ! i) = forceAcceleration g s i"
    and d: "\<forall>k. k \<notin> set js \<longrightarrow> acceleration (particles s' ! k) = acceleration (?ps2 ! k)"
    by simp_all
  have len: "length ps1 = length (particles s)"
    using Cons.prems(2) by (simp add: accelerationFrame_def)
  have "acceleration (particles s' ! i) = forceAcceleration g s i"
    if "i \<in> set (j # js)" "i < length (particles s)" for i
  proof (cases "i \<in> set js")
    case True
    with c that show ?thesis by simp
  next
    case False
    with that have "i = j" by simp
    with False d that len show ?thesis by simp
  qed
  moreover have "acceleration (particles s' ! k) = acceleration (ps1 ! k)" if "k \<notin> set (j # js)" for k
    using that d by simp
  ultimately show ?case
    using a b by blast
qed


text \<open>
  C5. When the force pass divides by no zero, the acceleration stored in every particle
  is \<open>(viscosityForce - pressureForce - tensionForce) / ownDensity + gravity\<close>, where the
  three forces are the sums over the neighbours within \<open>r\<^sup>2 < h\<^sup>2\<close> of
  \<open>- difference \<cdot> (pressureKernel r \<cdot> meanPressure \<cdot> neighborVolume)\<close>, of
  \<open>(neighborVelocity - ownVelocity) \<cdot> (viscosityKernel r \<cdot> neighborVolume)\<close> and of
  \<open>difference \<cdot> densityKernel r\<^sup>2\<close>, each scaled by its coefficient over the correction sum
  of \<open>densityKernel r\<^sup>2 \<cdot> neighborVolume\<close>.
\<close>

theorem computeForces_acceleration:
  assumes "computeForces mapVector s = Inr s'" and "i < length (particles s)"
  shows "acceleration (particles s' ! i)
     = scaled (1 / density (particles s ! i))
         (scaled (viscosity s / forceCorrectionSum s i) (viscosityForceSum s i)
          - scaled (pressure_sph s / forceCorrectionSum s i) (pressureForceSum s i)
          - scaled (surfaceTension s / forceCorrectionSum s i) (tensionForceSum s i))
       + mapVector (gravity s)"
proof -
  have "s\<lparr>particles := particles s\<rparr> = s"
    by simp
  with assms(1) have "computeForcesLoop (mapVector (gravity s)) [0 ..< length (particles s)]
      (s\<lparr>particles := particles s\<rparr>) = Inr s'"
    by (simp add: computeForces_def)
  from computeForcesLoop_Inr [OF this accelerationFrame_refl] assms(2)
  have "acceleration (particles s' ! i) = forceAcceleration (mapVector (gravity s)) s i"
    by simp
  then show ?thesis
    by (simp add: forceAcceleration_def)
qed

lemma QVector3D_zero_eq [simp]: "QVector3D 0 0 0 = 0"
  by (simp add: zero_QVector3D_def)

lemma scaled_zero [simp]: "scaled k 0 = 0" "scaled 0 v = 0"
  by (simp_all add: QVector3D.expand)

lemma computeForce_shear_0:
  "computeForce (QVector3D 0 (- (49 / 5)) 0) shearPair 0
     = Inr (unitSystem [restingParticle\<lparr>acceleration := QVector3D (32 / 7) (- (49 / 5)) 0\<rparr>,
                        restingParticle\<lparr>velocity := QVector3D 1 0 0\<rparr>])"
  by (simp add: shearPair_def computeForce_def forceSums_def unitSystem_def
      oneCellGrid_def restingParticle_def densityKernel_def pressureKernel_def viscosityKernel_def
      Let_def upt_rec [of 0] QVector3D.expand)

lemma computeForce_shear_1:
  "computeForce (QVector3D 0 (- (49 / 5)) 0)
      (unitSystem [restingParticle\<lparr>acceleration := QVector3D (32 / 7) (- (49 / 5)) 0\<rparr>,
                        restingParticle\<lparr>velocity := QVector3D 1 0 0\<rparr>]) (Suc 0)
     = Inr (unitSystem [restingParticle\<lparr>acceleration := QVector3D (32 / 7) (- (49 / 5)) 0\<rparr>,
                        restingParticle\<lparr>velocity := QVector3D 1 0 0,
                                        acceleration := QVector3D (- (32 / 7)) (- (49 / 5)) 0\<rparr>])"
  by (simp add: computeForce_def forceSums_def unitSystem_def
      oneCellGrid_def restingParticle_def densityKernel_def pressureKernel_def viscosityKernel_def
      Let_def upt_rec [of 0] QVector3D.expand)

lemma computeForces_shear:
  "computeForces (\<lambda>v. v) shearPair
     = Inr (unitSystem [restingParticle\<lparr>acceleration := QVector3D (32 / 7) (- (49 / 5)) 0\<rparr>,
                        restingParticle\<lparr>velocity := QVector3D 1 0 0,
                                        acceleration := QVector3D (- (32 / 7)) (- (49 / 5)) 0\<rparr>])"
proof -
  have "[0 ..< length (particles shearPair)] = [0, Suc 0]"
    and "gravity shearPair = QVector3D 0 (- (49 / 5)) 0"
    by (simp_all add: shearPair_def unitSystem_def upt_rec [of 0])
  then show ?thesis
    by (simp add: computeForces_def computeForce_shear_0 computeForce_shear_1)
qed

theorem computeForces_acceleration_witness:
  "computeForces (\<lambda>v. v) shearPair
     = Inr (unitSystem [restingParticle\<lparr>acceleration := QVector3D (32 / 7) (- (49 / 5)) 0\<rparr>,
                        restingParticle\<lparr>velocity := QVector3D 1 0 0,
                                        acceleration := QVector3D (- (32 / 7)) (- (49 / 5)) 0\<rparr>])
   \<and> 0 < length (particles shearPair)
   \<and> scaled (1 / density (particles shearPair ! 0))
         (scaled (viscosity shearPair / forceCorrectionSum shearPair 0) (viscosityForceSum shearPair 0)
          - scaled (pressure_sph shearPair / forceCorrectionSum shearPair 0) (pressureForceSum shearPair 0)
          - scaled (surfaceTension shearPair / forceCorrectionSum shearPair 0) (tensionForceSum shearPair 0))
       + gravity shearPair
     = QVector3D (32 / 7) (- (49 / 5)) 0"
proof -
  have i: "0 < length (particles shearPair)"
    by (simp add: shearPair_def unitSystem_def)
  from computeForces_acceleration [OF computeForces_shear i] i show ?thesis
    by (simp add: computeForces_shear) (simp add: unitSystem_def restingParticle_def)
qed


lemma densityCell_valid:
  "\<forall>k \<in> set ks. k < length (particles s) \<Longrightarrow>
     densityCell s p ks acc = Inl DivisionByZero \<or> (\<exists>acc'. densityCell s p ks acc = Inr acc')"
proof (induction ks arbitrary: acc)
  case Nil
  then show ?case by simp
next
  case (Cons k ks)
  obtain d c where acc: "acc = (d, c)"
    by (cases acc)
  from Cons.prems have "\<forall>k \<in> set ks. k < length (particles s)" and "k < length (particles s)"
    by simp_all
  with Cons.IH show ?case
    unfolding acc by (simp add: Let_def)
qed

lemma forceCell_valid:
  "\<forall>k \<in> set ks. k < length (particles s) \<Longrightarrow> \<exists>acc'. forceCell s p ks acc = Inr acc'"
proof (induction ks arbitrary: acc)
  case Nil
  show ?case by (rule exI [of _ acc]) simp
next
  case (Cons k ks)
  obtain pf vf tf c where acc: "acc = (pf, vf, tf, c)"
    using prod_cases4 by blast
  from Cons.prems have "\<forall>k \<in> set ks. k < length (particles s)" and "k < length (particles s)"
    by simp_all
  with Cons.IH show ?case
    unfolding acc by (simp add: Let_def)
qed

subsection \<open>A correction sum of zero\<close>

text \<open>
  C3 (amended). Neither solver guards a correction sum of zero. For a particle whose
  buckets hold indices of particles, a density correction sum of zero makes the density
  iteration divide by zero, and a force correction sum of zero makes the force iteration
  divide by zero: no density is defaulted to the rest density and no force to zero.
\<close>

theorem zero_correction_unguarded:
  assumes "bucketsValid s (cellIndex (particles s ! i))"
  shows "(correctionSum s i = 0 \<longrightarrow> computeDensity s i = Inl DivisionByZero)
       \<and> (forceCorrectionSum s i = 0 \<longrightarrow> computeForce g s i = Inl DivisionByZero)"
proof (intro conjI impI)
  assume z: "correctionSum s i = 0"
  from assms have v: "\<forall>k \<in> set (concat (map (cellParticles (grid s))
      (neighborhood (grid s) (cellIndex (particles s ! i))))). k < length (particles s)"
    by (simp add: bucketsValid_def)
  have "densitySums s i = Inl DivisionByZero \<or> (\<exists>acc'. densitySums s i = Inr acc')"
    unfolding densitySums_def densityCells_concat Let_def
    by (rule densityCell_valid [OF v])
  then show "computeDensity s i = Inl DivisionByZero"
  proof
    assume "densitySums s i = Inl DivisionByZero"
    then show ?thesis
      by (simp add: computeDensity_def)
  next
    assume "\<exists>acc'. densitySums s i = Inr acc'"
    then obtain d c where dc: "densitySums s i = Inr (d, c)"
      by auto
    from densitySums_Inr [OF dc] z have "c = 0"
      by simp
    with dc show ?thesis
      by (simp add: computeDensity_def)
  qed
next
  assume z: "forceCorrectionSum s i = 0"
  from assms have v: "\<forall>k \<in> set (concat (map (cellParticles (grid s))
      (neighborhood (grid s) (cellIndex (particles s ! i))))). k < length (particles s)"
    by (simp add: bucketsValid_def)
  have "\<exists>acc'. forceSums s i = Inr acc'"
    unfolding forceSums_def forceCells_concat Let_def
    by (rule forceCell_valid [OF v])
  then obtain pf vf tf c where f: "forceSums s i = Inr (pf, vf, tf, c)"
    by auto
  from forceSums_Inr [OF f] z have "c = 0"
    by simp
  with f show "computeForce g s i = Inl DivisionByZero"
    by (simp add: computeForce_def)
qed

lemma masslessParticle_sums:
  "bucketsValid masslessParticle (cellIndex (particles masslessParticle ! 0))"
  "correctionSum masslessParticle 0 = 0" "forceCorrectionSum masslessParticle 0 = 0"
  by (simp_all add: bucketsValid_def correctionSum_def forceCorrectionSum_def neighbors_def
      W_def inRadius_def masslessParticle_def unitSystem_def oneCellGrid_def restingParticle_def
      Let_def)

theorem zero_correction_unguarded_witness:
  "bucketsValid masslessParticle (cellIndex (particles masslessParticle ! 0))
   \<and> correctionSum masslessParticle 0 = 0 \<and> forceCorrectionSum masslessParticle 0 = 0
   \<and> computeDensity masslessParticle 0 = Inl DivisionByZero
   \<and> computeForce 0 masslessParticle 0 = Inl DivisionByZero"
  using zero_correction_unguarded [OF masslessParticle_sums(1), of 0] masslessParticle_sums
  by simp

text \<open>
  A particle of mass 0 and volume 0: both correction sums are 0, the density pass ends in
  the division \<open>0 / 0\<close> instead of storing the rest density, and the force pass ends in the
  division by the zero correction instead of storing a zero force.
\<close>

theorem zero_correction_counterexample:
  "correctionSum masslessParticle 0 = 0
   \<and> computeDensities masslessParticle = Inl DivisionByZero
   \<and> forceCorrectionSum masslessParticle 0 = 0
   \<and> computeForces id masslessParticle = Inl DivisionByZero"
proof -
  have "computeDensities masslessParticle = Inl DivisionByZero"
    by (simp add: computeDensities_def computeDensity_def densitySums_def masslessParticle_def
        unitSystem_def oneCellGrid_def restingParticle_def densityKernel_def Let_def)
  moreover have "computeForces id masslessParticle = Inl DivisionByZero"
    by (simp add: computeForces_def computeForce_def forceSums_def masslessParticle_def
        unitSystem_def oneCellGrid_def restingParticle_def densityKernel_def pressureKernel_def
        viscosityKernel_def Let_def)
  ultimately show ?thesis
    using masslessParticle_sums by simp
qed

subsection \<open>Surface field evaluator\<close>

lemma surfaceCell_valid:
  "\<forall>k \<in> set ks. k < length (particles s) \<Longrightarrow>
     surfaceCell s pos ks (d, gx, gy, gz) =
       Inr (d + (\<Sum>k\<leftarrow>filter (inRadius s pos) ks. W s pos k * mass (particles s ! k)),
            gx + (\<Sum>k\<leftarrow>filter (inRadius s pos) ks.
                    2 * (xp pos - xp (position (particles s ! k))) * gradientTerm s pos k),
            gy + (\<Sum>k\<leftarrow>filter (inRadius s pos) ks.
                    2 * (yp pos - yp (position (particles s ! k))) * gradientTerm s pos k),
            gz + (\<Sum>k\<leftarrow>filter (inRadius s pos) ks.
                    2 * (zp pos - zp (position (particles s ! k))) * gradientTerm s pos k))"
  by (induction ks arbitrary: d gx gy gz)
    (simp_all add: Let_def inRadius_def W_def gradientTerm_def algebra_simps)

lemma surfaceCell_append:
  "surfaceCell s pos (xs @ ys) acc =
     (case surfaceCell s pos xs acc of Inl e \<Rightarrow> Inl e | Inr acc' \<Rightarrow> surfaceCell s pos ys acc')"
proof (induction xs arbitrary: acc)
  case Nil
  then show ?case by simp
next
  case (Cons k ks)
  obtain d gx gy gz where acc: "acc = (d, gx, gy, gz)"
    using prod_cases4 by blast
  show ?case
    unfolding acc by (simp add: Cons.IH Let_def)
qed

lemma surfaceCells_concat:
  "surfaceCells s pos cs acc = surfaceCell s pos (concat (map (cellParticles (grid s)) cs)) acc"
  by (induction cs arbitrary: acc) (auto simp: surfaceCell_append split: sum.splits)

lemma lengthSquared_uminus [simp]: "lengthSquared (- v) = lengthSquared v"
  by (simp add: lengthSquared_def)

lemma lengthSquared_nonneg [simp]: "0 \<le> lengthSquared v"
  by (simp add: lengthSquared_def)

lemma normalize_uminus: "normalize (- v) = - normalize v"
  by (simp add: normalize_def Let_def QVector3D.expand)

lemma normalized_zero [simp]: "normalized 0 = 0"
  by (simp add: normalized_def qFuzzyIsNull_def lengthSquared_def)

lemma normalize_cases:
  "normalize v =
     (if \<bar>lengthSquared v - 1\<bar> \<le> 1 / 10 ^ 12 \<or> lengthSquared v \<le> 1 / 10 ^ 12 then v
      else scaled (1 / length_v v) v)"
proof -
  have "\<bar>lengthSquared v\<bar> = lengthSquared v"
    by simp
  then show ?thesis
    by (simp add: normalize_def qFuzzyIsNull_def length_v_def Let_def)
qed

lemma surfaceInfo_normalize:
  assumes "bucketsValid s (cellIndex_g (grid s) pos)" and "restDensity s \<noteq> 0"
  shows "surfaceInfo s pos =
           Inr (surfaceDensity s pos / restDensity s - (1 - 0.3), normalize (minusGradient s pos))"
proof -
  from assms(1) have v: "\<forall>k \<in> set (concat (map (cellParticles (grid s))
      (neighborhood (grid s) (cellIndex_g (grid s) pos)))). k < length (particles s)"
    by (simp add: bucketsValid_def)
  let ?ks = "concat (map (cellParticles (grid s)) (neighborhood (grid s) (cellIndex_g (grid s) pos)))"
  have sums: "surfaceCell s pos ?ks (0, 0, 0, 0)
      = Inr (surfaceDensity s pos, xp (surfaceGradient s pos), yp (surfaceGradient s pos),
             zp (surfaceGradient s pos))"
    unfolding surfaceCell_valid [OF v]
    by (simp add: surfaceDensity_def surfaceGradient_def neighbors_def)
  have g: "QVector3D (xp u / d) (yp u / d) (zp u / d) = scaled (1 / d) u" for u d
    by (simp add: QVector3D.expand)
  show ?thesis
    unfolding surfaceInfo_def surfaceCells_concat sums normalize_uminus minusGradient_def
    using assms(2) by (simp only: sum.case prod.case Let_def if_False g)
qed

text \<open>
  C9. For a query position whose buckets hold indices of particles, in a system of
  non-zero rest density, \<^verbatim>\<open>surfaceInfo\<close> returns the value \<open>density / restDensity - (1 - a)\<close>
  with \<open>a = 0.3\<close>, where the density is the kernel-weighted mass sum over the particles
  within the radius, and as normal the vector \<open>- gradient / restDensity\<close> passed through
  \<^verbatim>\<open>QVector3D::normalize\<close>: divided by its length when its squared length is farther than
  \<open>10\<^sup>-\<^sup>1\<^sup>2\<close> from both 0 and 1, and unchanged otherwise. The gradient is the per-axis sum of
  \<open>2 (position - neighborPosition) \<cdot> densitykernelGradient r\<^sup>2 \<cdot> mass\<close>. When no particle is
  within the radius, the density is 0, the value is \<open>- 0.7\<close> and the normal is the zero
  vector.
\<close>

theorem surfaceInfo_result:
  assumes "bucketsValid s (cellIndex_g (grid s) pos)" and "restDensity s \<noteq> 0"
  shows "surfaceInfo s pos =
           Inr (surfaceDensity s pos / restDensity s - (1 - 0.3),
                if \<bar>lengthSquared (minusGradient s pos) - 1\<bar> \<le> 1 / 10 ^ 12
                    \<or> lengthSquared (minusGradient s pos) \<le> 1 / 10 ^ 12
                then minusGradient s pos
                else scaled (1 / length_v (minusGradient s pos)) (minusGradient s pos))
       \<and> (neighbors s pos (cellIndex_g (grid s) pos) = [] \<longrightarrow>
            surfaceDensity s pos = 0 \<and> surfaceInfo s pos = Inr (- 0.7, 0))"
proof -
  note run = surfaceInfo_normalize [OF assms]
  have "surfaceDensity s pos = 0 \<and> surfaceInfo s pos = Inr (- 0.7, 0)"
    if "neighbors s pos (cellIndex_g (grid s) pos) = []"
  proof -
    from that have "surfaceDensity s pos = 0" and "surfaceGradient s pos = 0"
      by (simp_all add: surfaceDensity_def surfaceGradient_def)
    then show ?thesis
      by (simp add: run minusGradient_def normalize_cases)
  qed
  with run show ?thesis
    by (simp only: normalize_cases) blast
qed

lemma unitSystem_one_valid:
  "bucketsValid (unitSystem [restingParticle]) c" "restDensity (unitSystem [restingParticle]) \<noteq> 0"
  by (simp_all add: bucketsValid_def unitSystem_def oneCellGrid_def)

lemma minusGradient_half:
  "minusGradient (unitSystem [restingParticle]) (QVector3D (1 / 2) 0 0)
     = QVector3D (8505 / (1024 * pi)) 0 0"
  "surfaceDensity (unitSystem [restingParticle]) (QVector3D (1 / 2) 0 0) = 8505 / (4096 * pi)"
  by (simp_all add: minusGradient_def surfaceGradient_def surfaceDensity_def gradientTerm_def
      neighbors_def inRadius_def W_def unitSystem_def oneCellGrid_def restingParticle_def
      densityKernel_def densitykernelGradient_def lengthSquared_def Let_def QVector3D.expand)

lemma minusGradient_fringe:
  "minusGradient (unitSystem [restingParticle]) (QVector3D (9999 / 10000) 0 0)
     = QVector3D (6 * 315 * 9999 * 19999 * 19999 / (64 * 10 ^ 20 * pi)) 0 0"
  by (simp add: minusGradient_def surfaceGradient_def gradientTerm_def
      neighbors_def inRadius_def W_def unitSystem_def oneCellGrid_def restingParticle_def
      densityKernel_def densitykernelGradient_def lengthSquared_def Let_def QVector3D.expand)


theorem surfaceInfo_result_witness:
  "bucketsValid (unitSystem [restingParticle])
      (cellIndex_g (grid (unitSystem [restingParticle])) (QVector3D 2 0 0))
   \<and> restDensity (unitSystem [restingParticle]) \<noteq> 0
   \<and> neighbors (unitSystem [restingParticle]) (QVector3D 2 0 0)
        (cellIndex_g (grid (unitSystem [restingParticle])) (QVector3D 2 0 0)) = []
   \<and> surfaceInfo (unitSystem [restingParticle]) (QVector3D 2 0 0) = Inr (- 0.7, 0)
   \<and> surfaceInfo (unitSystem [restingParticle]) (QVector3D (1 / 2) 0 0)
       = Inr (8505 / (4096 * pi) - 0.7, QVector3D 1 0 0)"
proof -
  let ?U = "unitSystem [restingParticle]"
  have n: "neighbors ?U (QVector3D 2 0 0) (cellIndex_g (grid ?U) (QVector3D 2 0 0)) = []"
    by (simp add: neighbors_def inRadius_def unitSystem_def oneCellGrid_def restingParticle_def
        lengthSquared_def)
  from surfaceInfo_result [OF unitSystem_one_valid, of "QVector3D 2 0 0"] n
  have a: "surfaceInfo ?U (QVector3D 2 0 0) = Inr (- 0.7, 0)"
    by blast
  have r: "restDensity ?U = 1"
    by (simp add: unitSystem_def)
  have "2 < 8505 / (1024 * pi)"
    using pi_less_4 by (simp add: field_simps)
  then have "2 * 2 < (8505 / (1024 * pi)) * (8505 / (1024 * pi))"
    by (intro mult_strict_mono) simp_all
  then have big: "4 < (8505 / (1024 * pi)) * (8505 / (1024 * pi))"
    by simp
  have pos: "0 < 8505 / (1024 * pi)"
    by simp
  have l: "lengthSquared (QVector3D (8505 / (1024 * pi)) 0 0)
      = (8505 / (1024 * pi)) * (8505 / (1024 * pi))"
    by (simp add: lengthSquared_def)
  have lv: "length_v (QVector3D (8505 / (1024 * pi)) 0 0) = 8505 / (1024 * pi)"
    unfolding length_v_def l using pos by (simp only: real_sqrt_abs2 abs_of_pos)
  have c1: "\<not> (\<bar>lengthSquared (QVector3D (8505 / (1024 * pi)) 0 0) - 1\<bar> \<le> 1 / 10 ^ 12
      \<or> lengthSquared (QVector3D (8505 / (1024 * pi)) 0 0) \<le> 1 / 10 ^ 12)"
  proof -
    have "\<not> (\<bar>x - 1\<bar> \<le> 1 / 10 ^ 12 \<or> x \<le> 1 / 10 ^ 12)" if "4 < x" for x :: real
      using that by simp
    from this [OF big] show ?thesis
      unfolding l .
  qed
  have sc: "scaled (1 / (8505 / (1024 * pi))) (QVector3D (8505 / (1024 * pi)) 0 0) = QVector3D 1 0 0"
    using pos by (simp add: QVector3D.expand)
  from surfaceInfo_result [OF unitSystem_one_valid, of "QVector3D (1 / 2) 0 0"]
  have "surfaceInfo ?U (QVector3D (1 / 2) 0 0) =
           Inr (surfaceDensity ?U (QVector3D (1 / 2) 0 0) / restDensity ?U - (1 - 0.3),
                if \<bar>lengthSquared (minusGradient ?U (QVector3D (1 / 2) 0 0)) - 1\<bar> \<le> 1 / 10 ^ 12
                    \<or> lengthSquared (minusGradient ?U (QVector3D (1 / 2) 0 0)) \<le> 1 / 10 ^ 12
                then minusGradient ?U (QVector3D (1 / 2) 0 0)
                else scaled (1 / length_v (minusGradient ?U (QVector3D (1 / 2) 0 0)))
                       (minusGradient ?U (QVector3D (1 / 2) 0 0)))"
    by blast
  then have b: "surfaceInfo ?U (QVector3D (1 / 2) 0 0)
       = Inr (8505 / (4096 * pi) - 0.7, QVector3D 1 0 0)"
    unfolding minusGradient_half r if_not_P [OF c1] lv sc by simp
  from a b n unitSystem_one_valid show ?thesis
    by blast
qed

text \<open>
  The normal is not always the normalization of \<open>- gradient / restDensity\<close>. At the fringe
  of the support of a single particle, at distance 0.9999 of a radius of 1, that vector is
  not zero but its squared length is below \<open>10\<^sup>-\<^sup>1\<^sup>2\<close>: \<^verbatim>\<open>normalize\<close> leaves it as it is, and
  the normal returned is not a unit vector.
\<close>

theorem surfaceInfo_fringe_counterexample:
  "surfaceInfo (unitSystem [restingParticle]) (QVector3D (9999 / 10000) 0 0)
     = Inr (surfaceDensity (unitSystem [restingParticle]) (QVector3D (9999 / 10000) 0 0) - 0.7,
            minusGradient (unitSystem [restingParticle]) (QVector3D (9999 / 10000) 0 0))
   \<and> minusGradient (unitSystem [restingParticle]) (QVector3D (9999 / 10000) 0 0) \<noteq> 0
   \<and> lengthSquared (minusGradient (unitSystem [restingParticle]) (QVector3D (9999 / 10000) 0 0))
       \<le> 1 / 10 ^ 12
   \<and> lengthSquared (snd (projr (surfaceInfo (unitSystem [restingParticle])
                                    (QVector3D (9999 / 10000) 0 0)))) \<noteq> 1"
proof -
  let ?U = "unitSystem [restingParticle]"
  let ?q = "QVector3D (9999 / 10000) 0 0"
  let ?a = "6 * 315 * 9999 * 19999 * 19999 / (64 * 10 ^ 20 * pi)"
  have r: "restDensity ?U = 1"
    by (simp add: unitSystem_def)
  have pos: "0 < ?a"
    by simp
  have "?a \<le> 1 / 10 ^ 6"
    using pi_ge_two by (simp add: field_simps)
  with pos have "?a * ?a \<le> (1 / 10 ^ 6) * (1 / 10 ^ 6)"
    by (intro mult_mono) simp_all
  then have small: "?a * ?a \<le> 1 / 10 ^ 12"
    by simp
  have l: "lengthSquared (minusGradient ?U ?q) = ?a * ?a"
    unfolding minusGradient_fringe by (simp add: lengthSquared_def)
  have nz: "minusGradient ?U ?q \<noteq> 0"
  proof
    assume "minusGradient ?U ?q = 0"
    then have "lengthSquared (minusGradient ?U ?q) = 0"
      by (simp add: lengthSquared_def)
    with l pos show False
      by simp
  qed
  have le: "lengthSquared (minusGradient ?U ?q) \<le> 1 / 10 ^ 12"
    unfolding l by (rule small)
  have run: "surfaceInfo ?U ?q = Inr (surfaceDensity ?U ?q - 0.7, minusGradient ?U ?q)"
    unfolding surfaceInfo_normalize [OF unitSystem_one_valid] normalize_cases r
    using le by simp
  have "lengthSquared (snd (projr (surfaceInfo ?U ?q))) \<noteq> 1"
    unfolding run using le by simp
  with run nz le show ?thesis
    by blast
qed

subsection \<open>Integrator: one step of a single particle\<close>

lemma collisionLoop_miss:
  "c \<lparr>origin = pos, direction = normalized movement\<rparr> = None \<Longrightarrow>
     collisionLoop c pos newPosition movement movementLeft vel = Some (pos + movement, vel)"
  by (subst collisionLoop.simps) (simp add: Let_def)

lemma densityCell_alone:
  assumes "particles s = [p]" and "set ks \<subseteq> {0}" and "density p \<noteq> 0"
    and "0 < smoothingRadius2 s"
  shows "densityCell s p ks (d, c) =
     Inr (d + real (length ks) * (densityKernel s 0 * mass p),
          c + real (length ks) * (densityKernel s 0 * mass p / density p))"
  using assms(2)
proof (induction ks arbitrary: d c)
  case Nil
  then show ?case by simp
next
  case (Cons k ks)
  then have "k = 0" and "set ks \<subseteq> {0}"
    by simp_all
  with Cons.IH assms(1,3,4) show ?case
    by (simp add: Let_def algebra_simps add_divide_distrib)
qed

lemma forceCell_alone:
  assumes "particles s = [p]" and "set ks \<subseteq> {0}" and "0 < smoothingRadius2 s"
  shows "forceCell s p ks (pf, vf, tf, c) =
     Inr (pf, vf, tf, c + real (length ks) * (densityKernel s 0 * volume p))"
  using assms(2)
proof (induction ks arbitrary: c)
  case Nil
  then show ?case by simp
next
  case (Cons k ks)
  then have "k = 0" and "set ks \<subseteq> {0}"
    by simp_all
  with Cons.IH assms(1,3) show ?case
    by (simp add: Let_def algebra_simps)
qed

lemma collisionLoop_far:
  assumes "\<And>hit. c \<lparr>origin = pos, direction = normalized movement\<rparr> = Some hit \<Longrightarrow>
             length_v movementLeft \<le> length_v (scaled (rayParameterT hit) (normalized movement))"
  shows "collisionLoop c pos newPosition movement movementLeft vel = Some (pos + movement, vel)"
proof (cases "c \<lparr>origin = pos, direction = normalized movement\<rparr>")
  case None
  then show ?thesis
    by (subst collisionLoop.simps) (simp add: Let_def)
next
  case (Some hit)
  from assms [OF Some]
  have "\<not> length_v (scaled (rayParameterT hit) (normalized movement)) < length_v movementLeft"
    by simp
  with Some show ?thesis
    by (subst collisionLoop.simps) (simp add: Let_def)
qed

lemma normalized_down:
  assumes "0 < a" and "1 / 10 ^ 12 < a * a" and "1 / 10 ^ 12 < \<bar>a * a - 1\<bar>"
  shows "normalized (QVector3D 0 (- a) 0) = QVector3D 0 (- 1) 0"
proof -
  have l: "lengthSquared (QVector3D 0 (- a) 0) = a * a"
    by (simp add: lengthSquared_def)
  have s: "sqrt (a * a) = a"
    using assms(1) by simp
  from assms(2) have "\<not> \<bar>a * a\<bar> \<le> 1 / 10 ^ 12"
    by simp
  with assms(1,3) show ?thesis
    unfolding normalized_def l qFuzzyIsNull_def Let_def s
    by (simp add: QVector3D.expand)
qed

lemma length_v_axis [simp]: "length_v (QVector3D 0 a 0) = \<bar>a\<bar>"
  by (simp add: length_v_def lengthSquared_def)

text \<open>
  C8. A system of a single particle at rest, bucketed around itself, with a local gravity
  of \<open>(0, - 9.8, 0)\<close>, a time step of \<open>0.01\<close> that the clamp lets through, and a container
  with no intersection along the displacement (the ray from the particle along the
  displacement misses the container, or hits it no nearer than the length \<open>0.00098\<close> of
  the displacement): one step (density, forces, integration) ends with the acceleration
  \<open>(0, - 9.8, 0)\<close> (no force but gravity), the velocity \<open>(0, - 0.098, 0)\<close> and the position
  moved by \<open>(0, - 0.00098, 0)\<close>, the velocity being updated first and the position from
  the new velocity.
\<close>

theorem free_fall_step:
  assumes single: "particles s = [p]"
    and buckets: "set (concat (map (cellParticles (grid s)) (neighborhood (grid s) (cellIndex p)))) = {0}"
    and rest: "velocity p = 0"
    and grav: "mapVector (gravity s) = QVector3D 0 (- 9.8) 0"
    and clamp: "0.01 \<le> maxDeltaTime s"
    and h: "0 < smoothingRadius2 s" "coeffPoly6 s \<noteq> 0"
    and p: "mass p \<noteq> 0" "density p \<noteq> 0" "restDensity s \<noteq> 0"
    and far: "\<And>hit. container s \<lparr>origin = position p, direction = QVector3D 0 (- 1) 0\<rparr> = Some hit
                \<Longrightarrow> 0.00098 \<le> \<bar>rayParameterT hit\<bar>"
  shows "\<exists>s'. animate mapVector s 0.01 = Some (Inr s')
     \<and> acceleration (particles s' ! 0) = QVector3D 0 (- 9.8) 0
     \<and> velocity (particles s' ! 0) = QVector3D 0 (- 0.098) 0
     \<and> position (particles s' ! 0) = position p + QVector3D 0 (- 0.00098) 0"
proof -
  let ?ks = "concat (map (cellParticles (grid s)) (neighborhood (grid s) (cellIndex p)))"
  let ?n = "real (length ?ks)"
  let ?w = "densityKernel s 0"
  from buckets have ks: "set ?ks \<subseteq> {0}"
    by (simp only: subset_refl)
  from buckets have "?ks \<noteq> []"
    by (metis empty_iff insertI1 empty_set)
  then have n: "?n \<noteq> 0"
    by (simp only: of_nat_eq_0_iff length_0_conv not_False_eq_True)
  from h have w: "?w \<noteq> 0"
    by (simp add: densityKernel_def Let_def)
  let ?p1 = "p\<lparr>volume := mass p / density p,
     pressure := ?n * (?w * mass p) / restDensity s - 1\<rparr>"
  let ?s1 = "s\<lparr>particles := [?p1]\<rparr>"
  have d: "computeDensities s = Inr ?s1"
    using single p n w
    by (simp add: computeDensities_def computeDensity_def densitySums_def densityCells_concat
        densityCell_alone [OF single ks p(2) h(1)] pressure_fn_def Let_def)
  let ?p2 = "?p1\<lparr>acceleration := QVector3D 0 (- 9.8) 0\<rparr>"
  let ?s2 = "s\<lparr>particles := [?p2]\<rparr>"
  have "forceCell ?s1 ?p1 ?ks (0, 0, 0, 0)
      = Inr (0, 0, 0, 0 + ?n * (densityKernel ?s1 0 * volume ?p1))"
    by (rule forceCell_alone) (use ks h in simp_all)
  then have fs: "forceSums ?s1 0 = Inr (0, 0, 0, ?n * (?w * (mass p / density p)))"
    by (simp add: forceSums_def forceCells_concat Let_def)
  have f: "computeForces mapVector ?s1 = Inr ?s2"
    using p n w grav
    by (simp add: computeForces_def computeForce_def fs Let_def)
  let ?v = "QVector3D 0 (- 0.098) 0"
  let ?x = "position p + QVector3D 0 (- 0.00098) 0"
  let ?m = "QVector3D 0 (- (49 / 50000)) 0"
  have dir: "normalized ?m = QVector3D 0 (- 1) 0"
    by (rule normalized_down) simp_all
  have loop: "collisionLoop (container s) (position p) np ?m ?m vel = Some (position p + ?m, vel)"
    for np vel
  proof (rule collisionLoop_far)
    fix hit
    assume "container s \<lparr>origin = position p, direction = normalized ?m\<rparr> = Some hit"
    then have "0.00098 \<le> \<bar>rayParameterT hit\<bar>"
      unfolding dir by (rule far)
    then show "length_v ?m \<le> length_v (scaled (rayParameterT hit) (normalized ?m))"
      unfolding dir by (simp add: scaled_def)
  qed
  have m: "\<exists>s'. moveParticles 0.01 ?s2 = Some s' \<and> acceleration (particles s' ! 0) = QVector3D 0 (- 9.8) 0
     \<and> velocity (particles s' ! 0) = ?v \<and> position (particles s' ! 0) = ?x"
    using rest
    by (simp add: moveParticles_def moveParticle_def Let_def scaled_def loop)
  from clamp have "animate mapVector s 0.01 = map_option Inr (moveParticles 0.01 ?s2)"
    by (simp add: animate_def d f)
  with m show ?thesis
    by auto
qed

theorem free_fall_step_witness:
  "container deepFloorSystem \<lparr>origin = position restingParticle, direction = QVector3D 0 (- 1) 0\<rparr>
     = Some \<lparr>position_i = QVector3D 0 (- 1) 0, normal = QVector3D 0 (- 1) 0, rayParameterT = 1\<rparr>
   \<and> (\<exists>s'. animate id deepFloorSystem 0.01 = Some (Inr s')
     \<and> acceleration (particles s' ! 0) = QVector3D 0 (- 9.8) 0
     \<and> velocity (particles s' ! 0) = QVector3D 0 (- 0.098) 0
     \<and> position (particles s' ! 0) = QVector3D 0 (- 0.00098) 0)"
proof -
  let ?s = "deepFloorSystem"
  have hit: "container ?s \<lparr>origin = position restingParticle, direction = QVector3D 0 (- 1) 0\<rparr>
     = Some \<lparr>position_i = QVector3D 0 (- 1) 0, normal = QVector3D 0 (- 1) 0, rayParameterT = 1\<rparr>"
    by (simp add: deepFloorSystem_def planarBoundary_def restingParticle_def dotProduct_def
        scaled_def Let_def QVector3D.expand)
  have far: "0.00098 \<le> \<bar>rayParameterT h\<bar>"
    if "container ?s \<lparr>origin = position restingParticle, direction = QVector3D 0 (- 1) 0\<rparr> = Some h"
    for h
    using that unfolding hit by auto
  have "particles ?s = [restingParticle]"
    and "set (concat (map (cellParticles (grid ?s))
          (neighborhood (grid ?s) (cellIndex restingParticle)))) = {0}"
    and "velocity restingParticle = 0"
    and "id (gravity ?s) = QVector3D 0 (- 9.8) 0"
    and "0.01 \<le> maxDeltaTime ?s"
    and "0 < smoothingRadius2 ?s" and "coeffPoly6 ?s \<noteq> 0"
    and "mass restingParticle \<noteq> 0" and "density restingParticle \<noteq> 0"
    and "restDensity ?s \<noteq> 0"
    by (simp_all add: deepFloorSystem_def unitSystem_def oneCellGrid_def restingParticle_def)
  from free_fall_step [where mapVector = id and s = ?s and p = restingParticle, OF this far]
  have "\<exists>s'. animate id deepFloorSystem 0.01 = Some (Inr s')
     \<and> acceleration (particles s' ! 0) = QVector3D 0 (- 9.8) 0
     \<and> velocity (particles s' ! 0) = QVector3D 0 (- 0.098) 0
     \<and> position (particles s' ! 0) = QVector3D 0 (- 0.00098) 0"
    by (simp add: restingParticle_def)
  with hit show ?thesis
    by blast
qed

subsection \<open>Integrator: the response to a collision\<close>

lemma dotProduct_simps [simp]:
  "dotProduct (u + v) w = dotProduct u w + dotProduct v w"
  "dotProduct (u - v) w = dotProduct u w - dotProduct v w"
  "dotProduct (scaled k u) w = k * dotProduct u w"
  "dotProduct 0 w = 0"
  by (simp_all add: dotProduct_def algebra_simps)

lemma length_v_nonneg [simp]: "0 \<le> length_v v"
  by (simp add: length_v_def)

lemma length_v_zero [simp]: "length_v 0 = 0"
  by (simp add: length_v_def)

lemma lengthSquared_scaled: "lengthSquared (scaled k v) = k\<^sup>2 * lengthSquared v"
  by (simp add: lengthSquared_def power2_eq_square algebra_simps)

lemma length_v_scaled: "length_v (scaled k v) = \<bar>k\<bar> * length_v v"
  by (simp add: length_v_def lengthSquared_scaled real_sqrt_mult)

lemma lengthSquared_eq_0: "lengthSquared v = 0 \<Longrightarrow> v = 0"
proof -
  assume z: "lengthSquared v = 0"
  have "0 \<le> xp v * xp v" "0 \<le> yp v * yp v" "0 \<le> zp v * zp v"
    by simp_all
  with z have "xp v * xp v = 0" "yp v * yp v = 0" "zp v * zp v = 0"
    unfolding lengthSquared_def by linarith+
  then show "v = 0"
    by (simp add: QVector3D.expand)
qed









subsection \<open>Integrator: termination of the collision loop\<close>

lemma collisionLoop_st_unfold:
  "collisionLoop_st c st =
     (if collides c st then collisionLoop_st c (respond c st) else Some (commit st))"
proof -
  obtain pos np mv ml vel where st: "st = (pos, np, mv, ml, vel)"
    using prod_cases5 by blast
  have "collisionLoop c pos np mv ml vel =
     (if collides c (pos, np, mv, ml, vel) then collisionLoop_st c (respond c (pos, np, mv, ml, vel))
      else Some (commit (pos, np, mv, ml, vel)))"
    by (subst collisionLoop.simps)
      (simp add: collides_def respond_def commit_def collisionLoop_st_def Let_def
        split: option.splits)
  then show ?thesis
    unfolding st by (simp add: collisionLoop_st_def)
qed

lemma collisionLoop_st_iterate:
  "\<forall>j<k. collides c ((respond c ^^ j) st) \<Longrightarrow> \<not> collides c ((respond c ^^ k) st) \<Longrightarrow>
     collisionLoop_st c st = Some (commit ((respond c ^^ k) st))"
proof (induction k arbitrary: st)
  case 0
  then show ?case
    by (subst collisionLoop_st_unfold) simp
next
  case (Suc k)
  from Suc.prems(1) have first: "collides c st"
    by (metis funpow_0 zero_less_Suc)
  have "\<forall>j<k. collides c ((respond c ^^ j) (respond c st))"
  proof (intro allI impI)
    fix j assume "j < k"
    then have "Suc j < Suc k"
      by simp
    with Suc.prems(1) have "collides c ((respond c ^^ Suc j) st)"
      by blast
    then show "collides c ((respond c ^^ j) (respond c st))"
      by (simp add: funpow_swap1)
  qed
  moreover have "\<not> collides c ((respond c ^^ k) (respond c st))"
    using Suc.prems(2) by (simp add: funpow_swap1)
  ultimately have "collisionLoop_st c (respond c st) = Some (commit ((respond c ^^ k) (respond c st)))"
    by (rule Suc.IH)
  with first show ?case
    by (subst collisionLoop_st_unfold) (simp add: funpow_swap1)
qed

text \<open>
  C4 (amended). The loop has no bound on its iterations; whether it returns depends on the
  container. A remaining displacement of length zero ends it in the first iteration,
  whatever the container answers. In general, if the first \<open>k\<close> iterations find an
  intersection nearer than the remaining displacement and the next one does not, the loop
  returns after \<open>k\<close> responses with the position and the velocity of that state.
\<close>

theorem collisionLoop_returns:
  "(length_v movementLeft = 0 \<longrightarrow>
      collisionLoop c pos newPosition movement movementLeft vel = Some (pos + movement, vel))
   \<and> ((\<forall>j<k. collides c ((respond c ^^ j) (pos, newPosition, movement, movementLeft, vel)))
        \<and> \<not> collides c ((respond c ^^ k) (pos, newPosition, movement, movementLeft, vel)) \<longrightarrow>
      collisionLoop c pos newPosition movement movementLeft vel
        = Some (commit ((respond c ^^ k) (pos, newPosition, movement, movementLeft, vel))))"
proof (intro conjI impI)
  assume z: "length_v movementLeft = 0"
  have "\<not> length_v u < 0" for u
    using length_v_nonneg [of u] by linarith
  with z show "collisionLoop c pos newPosition movement movementLeft vel = Some (pos + movement, vel)"
    by (subst collisionLoop.simps) (simp add: Let_def split: option.splits)
next
  assume "(\<forall>j<k. collides c ((respond c ^^ j) (pos, newPosition, movement, movementLeft, vel)))
        \<and> \<not> collides c ((respond c ^^ k) (pos, newPosition, movement, movementLeft, vel))"
  then have "collisionLoop_st c (pos, newPosition, movement, movementLeft, vel)
      = Some (commit ((respond c ^^ k) (pos, newPosition, movement, movementLeft, vel)))"
    by (intro collisionLoop_st_iterate) simp_all
  then show "collisionLoop c pos newPosition movement movementLeft vel
        = Some (commit ((respond c ^^ k) (pos, newPosition, movement, movementLeft, vel)))"
    by (simp add: collisionLoop_st_def)
qed

lemma sticky_never_returns:
  assumes "collisionLoop c pos np mv ml vel = Some y"
  shows "\<not> (c = stickyContainer \<and> xp np = 1 \<and> zp np = 0 \<and> 0 < length_v ml)"
proof (rule collisionLoop.raw_induct [where P = "\<lambda>c pos np mv ml vel y.
    \<not> (c = stickyContainer \<and> xp np = 1 \<and> zp np = 0 \<and> 0 < length_v ml)", OF _ assms], goal_cases)
  case (1 loop c pos np mv ml vel y)
  show ?case
  proof
    assume a: "c = stickyContainer \<and> xp np = 1 \<and> zp np = 0 \<and> 0 < length_v ml"
    let ?ml = "np - 0"
    let ?mv = "?ml - scaled (dotProduct ?ml (QVector3D 0 1 0)) (QVector3D 0 1 0)"
    let ?pos2 = "0 - scaled bias (QVector3D 0 1 0)"
    let ?vel = "vel - scaled (dotProduct vel (QVector3D 0 1 0)) (QVector3D 0 1 0)"
    from a 1(2) have next_run: "loop stickyContainer ?pos2 (?pos2 + ?mv) ?mv ?ml ?vel = Some y"
      by (simp add: stickyContainer_def Let_def length_v_scaled)
    have "xp (?pos2 + ?mv) = 1" and "zp (?pos2 + ?mv) = 0"
      using a by (simp_all add: dotProduct_def)
    moreover have "0 < length_v ?ml"
    proof -
      have "lengthSquared np \<noteq> 0"
        using a lengthSquared_eq_0 [of np] by auto
      then have "0 < lengthSquared np"
        using lengthSquared_nonneg [of np] by linarith
      then show ?thesis
        by (simp add: length_v_def)
    qed
    ultimately show False
      using 1(1) [OF next_run] by simp
  qed
qed

text \<open>
  With the container that answers every ray with the same hit, the integration of a
  particle of velocity \<open>(1, 0, 0)\<close> over a time step of 1 never leaves the loop: from the
  second iteration on, the local variables are the same at the end of an iteration as at
  its start.
\<close>

theorem collisionLoop_uncapped_counterexample:
  "moveParticles 1 stickySystem = None"
proof -
  have "collisionLoop stickyContainer 0 (QVector3D 1 0 0) (QVector3D 1 0 0) (QVector3D 1 0 0)
      (QVector3D 1 0 0) = None"
  proof (rule ccontr)
    assume "collisionLoop stickyContainer 0 (QVector3D 1 0 0) (QVector3D 1 0 0) (QVector3D 1 0 0)
      (QVector3D 1 0 0) \<noteq> None"
    then obtain y where "collisionLoop stickyContainer 0 (QVector3D 1 0 0) (QVector3D 1 0 0)
      (QVector3D 1 0 0) (QVector3D 1 0 0) = Some y"
      by blast
    from sticky_never_returns [OF this] show False
      by (simp add: length_v_def lengthSquared_def)
  qed
  then show ?thesis
    by (simp add: moveParticles_def moveParticle_def stickySystem_def unitSystem_def
        restingParticle_def Let_def scaled_def)
qed


lemma floor_first:
  "planarBoundary (QVector3D 0 (- 1) 0) 0
      \<lparr>origin = QVector3D 0 (1 / 1000) 0, direction = QVector3D 0 (- 1) 0\<rparr>
     = Some \<lparr>position_i = 0, normal = QVector3D 0 (- 1) 0, rayParameterT = 1 / 1000\<rparr>"
  by (simp add: planarBoundary_def dotProduct_def Let_def QVector3D.expand)

lemma floor_respond:
  "respond (planarBoundary (QVector3D 0 (- 1) 0) 0)
      (QVector3D 0 (1 / 1000) 0, QVector3D 0 (- (9 / 1000)) 0, QVector3D 0 (- (1 / 100)) 0,
       QVector3D 0 (- (1 / 100)) 0, QVector3D 0 (- 1) 0)
     = (QVector3D 0 (1 / 2000) 0, QVector3D 0 (1 / 2000) 0, 0, QVector3D 0 (- (9 / 1000)) 0, 0)"
  by (simp add: respond_def normalized_down floor_first Let_def dotProduct_def bias_def
      QVector3D.expand)

theorem collisionLoop_returns_witness:
  "length_v 0 = 0
   \<and> collisionLoop stickyContainer 0 0 0 0 0 = Some (0, 0)
   \<and> collides (planarBoundary (QVector3D 0 (- 1) 0) 0)
        (QVector3D 0 (1 / 1000) 0, QVector3D 0 (- (9 / 1000)) 0, QVector3D 0 (- (1 / 100)) 0,
         QVector3D 0 (- (1 / 100)) 0, QVector3D 0 (- 1) 0)
   \<and> \<not> collides (planarBoundary (QVector3D 0 (- 1) 0) 0)
        (respond (planarBoundary (QVector3D 0 (- 1) 0) 0)
          (QVector3D 0 (1 / 1000) 0, QVector3D 0 (- (9 / 1000)) 0, QVector3D 0 (- (1 / 100)) 0,
           QVector3D 0 (- (1 / 100)) 0, QVector3D 0 (- 1) 0))
   \<and> collisionLoop (planarBoundary (QVector3D 0 (- 1) 0) 0)
        (QVector3D 0 (1 / 1000) 0) (QVector3D 0 (- (9 / 1000)) 0) (QVector3D 0 (- (1 / 100)) 0)
        (QVector3D 0 (- (1 / 100)) 0) (QVector3D 0 (- 1) 0)
       = Some (QVector3D 0 (1 / 2000) 0, 0)"
proof -
  let ?c = "planarBoundary (QVector3D 0 (- 1) 0) 0"
  let ?st = "(QVector3D 0 (1 / 1000) 0, QVector3D 0 (- (9 / 1000)) 0, QVector3D 0 (- (1 / 100)) 0,
         QVector3D 0 (- (1 / 100)) 0, QVector3D 0 (- 1) 0)"
  have a: "collides ?c ?st"
    by (simp add: collides_def normalized_down floor_first length_v_scaled)
  have b: "\<not> collides ?c (respond ?c ?st)"
    by (simp add: floor_respond collides_def planarBoundary_def)
  from a have a': "\<forall>j<1. collides ?c ((respond ?c ^^ j) ?st)"
    by simp
  from b have b': "\<not> collides ?c ((respond ?c ^^ 1) ?st)"
    by simp
  from collisionLoop_returns [of 0 stickyContainer 0 0 0 0 0]
  have z: "collisionLoop stickyContainer 0 0 0 0 0 = Some (0, 0)"
    by simp
  from collisionLoop_returns [of "QVector3D 0 (- (1 / 100)) 0" ?c "QVector3D 0 (1 / 1000) 0"
      "QVector3D 0 (- (9 / 1000)) 0" "QVector3D 0 (- (1 / 100)) 0" "QVector3D 0 (- 1) 0" 1] a' b'
  have "collisionLoop ?c
        (QVector3D 0 (1 / 1000) 0) (QVector3D 0 (- (9 / 1000)) 0) (QVector3D 0 (- (1 / 100)) 0)
        (QVector3D 0 (- (1 / 100)) 0) (QVector3D 0 (- 1) 0)
       = Some (commit ((respond ?c ^^ 1) ?st))"
    by blast
  then have r: "collisionLoop ?c
        (QVector3D 0 (1 / 1000) 0) (QVector3D 0 (- (9 / 1000)) 0) (QVector3D 0 (- (1 / 100)) 0)
        (QVector3D 0 (- (1 / 100)) 0) (QVector3D 0 (- 1) 0)
       = Some (QVector3D 0 (1 / 2000) 0, 0)"
    by (simp add: floor_respond commit_def)
  from a b z r show ?thesis
    by simp
qed

subsection \<open>Grid consistency\<close>

lemma count_list_remove1:
  "count_list (remove1 i xs) j = (if i = j then count_list xs j - 1 else count_list xs j)"
  by (induction xs) auto

lemma grid_addParticle [simp]:
  "cellIndex_g (addParticle g c i) = cellIndex_g g"
  "neighborhood (addParticle g c i) = neighborhood g"
  "cellParticles (addParticle g c i) c' = (if c' = c then cellParticles g c @ [i] else cellParticles g c')"
  by (simp_all add: addParticle_def)

lemma grid_removeParticle [simp]:
  "cellIndex_g (removeParticle g c i) = cellIndex_g g"
  "neighborhood (removeParticle g c i) = neighborhood g"
  "cellParticles (removeParticle g c i) c' = (if c' = c then remove1 i (cellParticles g c) else cellParticles g c')"
  by (simp_all add: removeParticle_def)

lemma moveParticle_consistent:
  assumes inv: "gridConsistent s" and i: "i < length (particles s)"
    and run: "moveParticle dt s i = Some s'"
  shows "gridConsistent s' \<and> length (particles s') = length (particles s)"
proof -
  let ?p = "particles s ! i"
  let ?v = "velocity ?p + scaled dt (acceleration ?p)"
  let ?np = "position ?p + scaled dt ?v"
  have "\<exists>pos' vel'. s' =
      (if cellIndex ?p \<noteq> cellIndex_g (grid s) pos' then
         s\<lparr>particles := (particles s)[i := ?p\<lparr>position := pos', velocity := vel',
                       cellIndex := cellIndex_g (grid s) pos'\<rparr>],
           grid := addParticle (removeParticle (grid s) (cellIndex ?p) i)
                     (cellIndex_g (grid s) pos') i\<rparr>
       else s\<lparr>particles := (particles s)[i := ?p\<lparr>position := pos', velocity := vel'\<rparr>]\<rparr>)"
  proof (cases "collisionLoop (container s) (position ?p) ?np (?np - position ?p)
      (?np - position ?p) ?v")
    case None
    with run show ?thesis
      by (simp add: moveParticle_def Let_def)
  next
    case (Some r)
    obtain pos' vel' where r: "r = (pos', vel')"
      by (cases r)
    from run Some have "s' =
      (if cellIndex ?p \<noteq> cellIndex_g (grid s) pos' then
         s\<lparr>particles := (particles s)[i := ?p\<lparr>position := pos', velocity := vel',
                       cellIndex := cellIndex_g (grid s) pos'\<rparr>],
           grid := addParticle (removeParticle (grid s) (cellIndex ?p) i)
                     (cellIndex_g (grid s) pos') i\<rparr>
       else s\<lparr>particles := (particles s)[i := ?p\<lparr>position := pos', velocity := vel'\<rparr>]\<rparr>)"
      unfolding r moveParticle_def Let_def
      by (simp split: if_splits)
    then show ?thesis
      by blast
  qed
  then obtain pos' vel' where s': "s' =
      (if cellIndex ?p \<noteq> cellIndex_g (grid s) pos' then
         s\<lparr>particles := (particles s)[i := ?p\<lparr>position := pos', velocity := vel',
                       cellIndex := cellIndex_g (grid s) pos'\<rparr>],
           grid := addParticle (removeParticle (grid s) (cellIndex ?p) i)
                     (cellIndex_g (grid s) pos') i\<rparr>
       else s\<lparr>particles := (particles s)[i := ?p\<lparr>position := pos', velocity := vel'\<rparr>]\<rparr>)"
    by blast
  from inv have cell: "\<And>k. k < length (particles s) \<Longrightarrow>
      cellIndex (particles s ! k) = cellIndex_g (grid s) (position (particles s ! k))"
    and cnt: "\<And>k c. k < length (particles s) \<Longrightarrow>
      count_list (cellParticles (grid s) c) k = (if c = cellIndex (particles s ! k) then 1 else 0)"
    by (simp_all add: gridConsistent_def)
  show ?thesis
  proof (cases "cellIndex ?p = cellIndex_g (grid s) pos'")
    case True
    let ?p' = "?p\<lparr>position := pos', velocity := vel'\<rparr>"
    from True have eq: "s' = s\<lparr>particles := (particles s)[i := ?p']\<rparr>"
      by (simp add: s')
    have "cellIndex (particles s' ! k) = cellIndex_g (grid s') (position (particles s' ! k))
        \<and> (\<forall>c. count_list (cellParticles (grid s') c) k
                 = (if c = cellIndex (particles s' ! k) then 1 else 0))"
      if k: "k < length (particles s)" for k
    proof (cases "k = i")
      case True
      with i have "particles s' ! k = ?p'" and "grid s' = grid s"
        by (simp_all add: eq)
      with \<open>cellIndex ?p = cellIndex_g (grid s) pos'\<close> cnt [OF i] True show ?thesis
        by simp
    next
      case False
      then have "particles s' ! k = particles s ! k" and "grid s' = grid s"
        by (simp_all add: eq)
      with cell [OF k] cnt [OF k] show ?thesis
        by simp
    qed
    then show ?thesis
      by (simp add: gridConsistent_def eq)
  next
    case False
    let ?new = "cellIndex_g (grid s) pos'"
    let ?p' = "?p\<lparr>position := pos', velocity := vel', cellIndex := ?new\<rparr>"
    from False have eq: "s' = s\<lparr>particles := (particles s)[i := ?p'],
                  grid := addParticle (removeParticle (grid s) (cellIndex ?p) i) ?new i\<rparr>"
      by (simp add: s')
    have g: "cellIndex_g (grid s') = cellIndex_g (grid s)"
      and b: "\<And>c. cellParticles (grid s') c =
          (if c = ?new then cellParticles (grid s) ?new @ [i]
           else if c = cellIndex ?p then remove1 i (cellParticles (grid s) (cellIndex ?p))
           else cellParticles (grid s) c)"
      using False by (simp_all add: eq)
    have "cellIndex (particles s' ! k) = cellIndex_g (grid s') (position (particles s' ! k))
        \<and> (\<forall>c. count_list (cellParticles (grid s') c) k
                 = (if c = cellIndex (particles s' ! k) then 1 else 0))"
      if k: "k < length (particles s)" for k
    proof (cases "k = i")
      case True
      with i have "particles s' ! k = ?p'"
        by (simp add: eq)
      with False cnt [OF i] True show ?thesis
        by (simp add: g b count_list_remove1)
    next
      case False
      then have "particles s' ! k = particles s ! k"
        by (simp add: eq)
      with cell [OF k] cnt [OF k] False show ?thesis
        by (simp add: g b count_list_remove1)
    qed
    then show ?thesis
      by (simp add: gridConsistent_def eq)
  qed
qed

lemma moveParticlesLoop_consistent:
  "gridConsistent s \<Longrightarrow> \<forall>i \<in> set js. i < length (particles s) \<Longrightarrow>
     moveParticlesLoop dt js s = Some s' \<Longrightarrow>
     gridConsistent s' \<and> length (particles s') = length (particles s)"
proof (induction js arbitrary: s)
  case Nil
  then show ?case by simp
next
  case (Cons i js)
  from Cons.prems(3) obtain s1 where s1: "moveParticle dt s i = Some s1"
    and rest: "moveParticlesLoop dt js s1 = Some s'"
    by (auto split: option.splits)
  from Cons.prems(2) have i: "i < length (particles s)"
    by simp
  from moveParticle_consistent [OF Cons.prems(1) i s1]
  have inv1: "gridConsistent s1" and len1: "length (particles s1) = length (particles s)"
    by simp_all
  from Cons.prems(2) len1 have "\<forall>i \<in> set js. i < length (particles s1)"
    by simp
  from Cons.IH [OF inv1 this rest] len1 show ?case
    by simp
qed


lemma gridConsistent_keeps:
  assumes "grid s' = grid s" and "length (particles s') = length (particles s)"
    and "\<And>k. position (particles s' ! k) = position (particles s ! k)"
    and "\<And>k. cellIndex (particles s' ! k) = cellIndex (particles s ! k)"
  shows "gridConsistent s' = gridConsistent s"
  by (simp add: gridConsistent_def assms)

lemma computeDensities_consistent:
  "computeDensities s = Inr s' \<Longrightarrow> gridConsistent s' = gridConsistent s
     \<and> length (particles s') = length (particles s)"
proof -
  assume "computeDensities s = Inr s'"
  then have "computeDensitiesLoop [0 ..< length (particles s)] s = Inr s'"
    by (simp only: computeDensities_def)
  from computeDensitiesLoop_keeps [OF this]
  have g: "grid s' = grid s" and len: "length (particles s') = length (particles s)"
    and pos: "\<And>k. position (particles s' ! k) = position (particles s ! k)"
    and ci: "\<And>k. cellIndex (particles s' ! k) = cellIndex (particles s ! k)"
    by blast+
  from gridConsistent_keeps [OF g len pos ci] len show ?thesis
    by blast
qed

lemma computeForces_consistent:
  assumes "computeForces mapVector s = Inr s'"
  shows "gridConsistent s' = gridConsistent s \<and> length (particles s') = length (particles s)"
proof -
  have "s\<lparr>particles := particles s\<rparr> = s"
    by simp
  with assms have "computeForcesLoop (mapVector (gravity s)) [0 ..< length (particles s)]
      (s\<lparr>particles := particles s\<rparr>) = Inr s'"
    by (simp add: computeForces_def)
  from computeForcesLoop_Inr [OF this accelerationFrame_refl]
  have eq: "s' = s\<lparr>particles := particles s'\<rparr>"
    and frame: "accelerationFrame (particles s) (particles s')"
    by simp_all
  from arg_cong [OF eq, of grid] have g: "grid s' = grid s"
    by simp
  from frame have len: "length (particles s') = length (particles s)"
    by (simp add: accelerationFrame_def)
  from gridConsistent_keeps [OF g len accelerationFrame_fields(1) [OF frame]
      accelerationFrame_fields(7) [OF frame]] len
  show ?thesis
    by simp
qed

lemma animate_consistent:
  assumes "gridConsistent s" and "animate mapVector s dt = Some (Inr s')"
  shows "gridConsistent s'"
proof -
  let ?dt = "if dt > maxDeltaTime s then maxDeltaTime s else dt"
  from assms(2) obtain s1 where d: "computeDensities s = Inr s1"
    by (cases "computeDensities s") (simp_all add: animate_def Let_def)
  from assms(2) d obtain s2 where f: "computeForces mapVector s1 = Inr s2"
    by (cases "computeForces mapVector s1") (simp_all add: animate_def Let_def)
  from assms(2) d f have m: "moveParticles ?dt s2 = Some s'"
    by (cases "moveParticles ?dt s2") (simp_all add: animate_def Let_def)
  from computeDensities_consistent [OF d] computeForces_consistent [OF f] assms(1)
  have "gridConsistent s2"
    by simp
  moreover have "\<forall>i \<in> set [0 ..< length (particles s2)]. i < length (particles s2)"
    by simp
  ultimately show ?thesis
    using m moveParticlesLoop_consistent unfolding moveParticles_def by blast
qed


lemma initializeParticlesLoop_buckets:
  assumes "initializeParticlesLoop m r js s = Inr s'"
    and "distinct js" and "\<forall>j \<in> set js. j < length (particles s)"
  shows "length (particles s') = length (particles s)
     \<and> cellIndex_g (grid s') = cellIndex_g (grid s)
     \<and> (\<forall>k<length (particles s).
          (k \<in> set js \<longrightarrow>
             cellIndex (particles s' ! k) = cellIndex_g (grid s) (position (particles s' ! k))
             \<and> (\<forall>c. count_list (cellParticles (grid s') c) k
                   = count_list (cellParticles (grid s) c) k
                     + (if c = cellIndex (particles s' ! k) then 1 else 0)))
          \<and> (k \<notin> set js \<longrightarrow>
             particles s' ! k = particles s ! k
             \<and> (\<forall>c. count_list (cellParticles (grid s') c) k
                   = count_list (cellParticles (grid s) c) k)))"
  using assms
proof (induction js arbitrary: s)
  case Nil
  then show ?case by simp
next
  case (Cons i js)
  let ?p = "(particles s ! i)\<lparr>mass := m, density := restDensity s, volume := m / restDensity s,
      position := r i, cellIndex := cellIndex_g (grid s) (r i)\<rparr>"
  let ?s1 = "s\<lparr>particles := (particles s)[i := ?p],
      grid := addParticle (grid s) (cellIndex_g (grid s) (r i)) i\<rparr>"
  from Cons.prems(1) have run: "initializeParticlesLoop m r js ?s1 = Inr s'"
    by (simp add: Let_def split: if_splits)
  from Cons.prems(2,3) have i: "i < length (particles s)" "i \<notin> set js" and dist: "distinct js"
    and js: "\<forall>j \<in> set js. j < length (particles ?s1)"
    by simp_all
  from Cons.IH [OF run dist js]
  have len: "length (particles s') = length (particles s)"
    and g: "cellIndex_g (grid s') = cellIndex_g (grid s)"
    and seeded: "\<And>k. k < length (particles s) \<Longrightarrow> k \<in> set js \<Longrightarrow>
        cellIndex (particles s' ! k) = cellIndex_g (grid s) (position (particles s' ! k))
        \<and> (\<forall>c. count_list (cellParticles (grid s') c) k
                   = count_list (cellParticles (grid ?s1) c) k
                     + (if c = cellIndex (particles s' ! k) then 1 else 0))"
    and later: "\<And>k. k < length (particles s) \<Longrightarrow> k \<notin> set js \<Longrightarrow>
        particles s' ! k = particles ?s1 ! k
        \<and> (\<forall>c. count_list (cellParticles (grid s') c) k
                   = count_list (cellParticles (grid ?s1) c) k)"
    by simp_all
  have "(k \<in> set (i # js) \<longrightarrow>
             cellIndex (particles s' ! k) = cellIndex_g (grid s) (position (particles s' ! k))
             \<and> (\<forall>c. count_list (cellParticles (grid s') c) k
                   = count_list (cellParticles (grid s) c) k
                     + (if c = cellIndex (particles s' ! k) then 1 else 0)))
          \<and> (k \<notin> set (i # js) \<longrightarrow>
             particles s' ! k = particles s ! k
             \<and> (\<forall>c. count_list (cellParticles (grid s') c) k
                   = count_list (cellParticles (grid s) c) k))"
    if k: "k < length (particles s)" for k
  proof (cases "k = i")
    case True
    with later [OF k] i show ?thesis
      by simp
  next
    case False
    show ?thesis
    proof (cases "k \<in> set js")
      case True
      with seeded [OF k] \<open>k \<noteq> i\<close> show ?thesis
        by simp
    next
      case False
      with later [OF k] \<open>k \<noteq> i\<close> show ?thesis
        by simp
    qed
  qed
  with len g show ?case
    by simp
qed

lemma initializeParticles_consistent:
  assumes empty: "\<forall>c. cellParticles (grid s0) c = []"
    and run: "initializeParticles r s0 totalVolume = Inr s"
  shows "gridConsistent s"
proof (cases "particles s0 = []")
  case True
  with run show ?thesis
    by (simp add: initializeParticles_def gridConsistent_def)
next
  case False
  let ?js = "[0 ..< length (particles s0)]"
  from False run have "initializeParticlesLoop
      (totalVolume * restDensity s0 / real (length (particles s0))) r ?js s0 = Inr s"
    by (simp add: initializeParticles_def Let_def)
  from initializeParticlesLoop_buckets [OF this] empty show ?thesis
    by (simp add: gridConsistent_def)
qed


text \<open>
  C10. Grid consistency is established by the seeding of the particles into a grid of
  empty buckets, and every simulation step that returns a state preserves it. In a
  consistent state the cell index stored in a particle is the cell of its position, and
  the index of the particle occurs in the bucket of a cell exactly when the cell is that
  one.
\<close>

theorem grid_consistency:
  "((\<forall>c. cellParticles (grid s0) c = [])
      \<and> initializeParticles randomInteriorPoint s0 totalVolume = Inr s \<longrightarrow> gridConsistent s)
   \<and> (gridConsistent s \<and> animate mapVector s dt = Some (Inr s') \<longrightarrow> gridConsistent s')
   \<and> (gridConsistent s \<and> i < length (particles s) \<longrightarrow>
        cellIndex (particles s ! i) = cellIndex_g (grid s) (position (particles s ! i))
        \<and> (\<forall>c. i \<in> set (cellParticles (grid s) c) \<longleftrightarrow> c = cellIndex (particles s ! i)))"
proof (intro conjI impI)
  assume "(\<forall>c. cellParticles (grid s0) c = [])
      \<and> initializeParticles randomInteriorPoint s0 totalVolume = Inr s"
  then show "gridConsistent s"
    using initializeParticles_consistent by blast
next
  assume "gridConsistent s \<and> animate mapVector s dt = Some (Inr s')"
  then show "gridConsistent s'"
    using animate_consistent by blast
next
  assume a: "gridConsistent s \<and> i < length (particles s)"
  then show "cellIndex (particles s ! i) = cellIndex_g (grid s) (position (particles s ! i))"
    by (simp add: gridConsistent_def)
  from a have cnt: "count_list (cellParticles (grid s) c) i
      = (if c = cellIndex (particles s ! i) then 1 else 0)" for c
    by (simp add: gridConsistent_def)
  show "\<forall>c. i \<in> set (cellParticles (grid s) c) \<longleftrightarrow> c = cellIndex (particles s ! i)"
  proof
    fix c
    from cnt [of c] count_list_0_iff [of "cellParticles (grid s) c" i]
    show "i \<in> set (cellParticles (grid s) c) \<longleftrightarrow> c = cellIndex (particles s ! i)"
      by (cases "c = cellIndex (particles s ! i)") simp_all
  qed
qed

lemma fallingSystem_consistent: "gridConsistent fallingSystem"
  by (simp add: gridConsistent_def fallingSystem_def unitSystem_def twoCellGrid_def
      restingParticle_def)

lemma unseededSystem_seeded:
  "\<forall>c. cellParticles (grid unseededSystem) c = []"
  "\<exists>s. initializeParticles (\<lambda>i. QVector3D 0 (1 / 2000) 0) unseededSystem 1 = Inr s
     \<and> particles s = [restingParticle\<lparr>position := QVector3D 0 (1 / 2000) 0\<rparr>]
     \<and> cellParticles (grid s) 0 = [0] \<and> cellParticles (grid s) 1 = []"
  by (simp_all add: initializeParticles_def unseededSystem_def unitSystem_def twoCellGrid_def
      restingParticle_def addParticle_def Let_def)

lemma fallingSystem_step:
  "\<exists>s'. animate (\<lambda>v. v) fallingSystem 0.01 = Some (Inr s')
     \<and> position (particles s' ! 0) = QVector3D 0 (- (6 / 12500)) 0
     \<and> cellIndex (particles s' ! 0) = 1
     \<and> cellParticles (grid s') 0 = [] \<and> cellParticles (grid s') 1 = [0]"
proof -
  let ?p1 = "restingParticle\<lparr>position := QVector3D 0 (1 / 2000) 0,
      pressure := 315 / (64 * pi) - 1\<rparr>"
  let ?p2 = "?p1\<lparr>acceleration := QVector3D 0 (- (49 / 5)) 0\<rparr>"
  have d: "computeDensities fallingSystem
      = Inr ((unitSystem [?p1])\<lparr>grid := twoCellGrid [0] []\<rparr>)"
    by (simp add: computeDensities_def computeDensity_def densitySums_def fallingSystem_def
        unitSystem_def twoCellGrid_def restingParticle_def densityKernel_def pressure_fn_def
        Let_def)
  have f: "computeForces (\<lambda>v. v) ((unitSystem [?p1])\<lparr>grid := twoCellGrid [0] []\<rparr>)
      = Inr ((unitSystem [?p2])\<lparr>grid := twoCellGrid [0] []\<rparr>)"
    by (simp add: computeForces_def computeForce_def forceSums_def unitSystem_def
        twoCellGrid_def restingParticle_def densityKernel_def pressureKernel_def
        viscosityKernel_def Let_def QVector3D.expand)
  have dir: "normalized (QVector3D 0 (- (49 / 50000)) 0) = QVector3D 0 (- 1) 0"
    by (simp add: normalized_down)
  have m: "\<exists>s'. moveParticles 0.01 ((unitSystem [?p2])\<lparr>grid := twoCellGrid [0] []\<rparr>) = Some s'
     \<and> position (particles s' ! 0) = QVector3D 0 (- (6 / 12500)) 0
     \<and> cellIndex (particles s' ! 0) = 1
     \<and> cellParticles (grid s') 0 = [] \<and> cellParticles (grid s') 1 = [0]"
    by (simp add: moveParticles_def moveParticle_def unitSystem_def twoCellGrid_def
        restingParticle_def Let_def scaled_def dir collisionLoop_miss QVector3D.expand
        plus_QVector3D_def)
  have "animate (\<lambda>v. v) fallingSystem 0.01
      = map_option Inr (moveParticles 0.01 ((unitSystem [?p2])\<lparr>grid := twoCellGrid [0] []\<rparr>))"
    unfolding animate_def d Let_def using f
    by (simp add: fallingSystem_def unitSystem_def)
  with m show ?thesis
    by auto
qed

theorem grid_consistency_witness:
  "(\<forall>c. cellParticles (grid unseededSystem) c = [])
   \<and> (\<exists>s. initializeParticles (\<lambda>i. QVector3D 0 (1 / 2000) 0) unseededSystem 1 = Inr s
        \<and> gridConsistent s \<and> cellParticles (grid s) 0 = [0])
   \<and> gridConsistent fallingSystem
   \<and> (\<exists>s'. animate (\<lambda>v. v) fallingSystem 0.01 = Some (Inr s') \<and> gridConsistent s'
        \<and> cellIndex (particles s' ! 0) = 1
        \<and> cellParticles (grid s') 0 = [] \<and> cellParticles (grid s') 1 = [0])
   \<and> 0 < length (particles fallingSystem)
   \<and> cellIndex (particles fallingSystem ! 0)
       = cellIndex_g (grid fallingSystem) (position (particles fallingSystem ! 0))"
proof -
  from unseededSystem_seeded obtain s where
    s: "initializeParticles (\<lambda>i. QVector3D 0 (1 / 2000) 0) unseededSystem 1 = Inr s"
    and s0: "cellParticles (grid s) 0 = [0]"
    by blast
  from fallingSystem_step obtain s' where
    s': "animate (\<lambda>v. v) fallingSystem 0.01 = Some (Inr s')"
    and c: "cellIndex (particles s' ! 0) = 1"
      "cellParticles (grid s') 0 = []" "cellParticles (grid s') 1 = [0]"
    by blast
  have len: "0 < length (particles fallingSystem)"
    by (simp add: fallingSystem_def unitSystem_def)
  from grid_consistency [where ?s0.0 = unseededSystem
      and randomInteriorPoint = "\<lambda>i. QVector3D 0 (1 / 2000) 0" and totalVolume = 1 and s = s]
    unseededSystem_seeded(1) s
  have a: "gridConsistent s"
    by blast
  from grid_consistency [where s = fallingSystem and mapVector = "\<lambda>v. v" and dt = "0.01"
      and s' = s' and i = 0] fallingSystem_consistent s' len
  have b: "gridConsistent s'"
    and e: "cellIndex (particles fallingSystem ! 0)
       = cellIndex_g (grid fallingSystem) (position (particles fallingSystem ! 0))"
    by blast+
  from a b c e s s0 s' len fallingSystem_consistent unseededSystem_seeded(1) show ?thesis
    by blast
qed

subsection \<open>Density solver: the densities that a pass reads\<close>






lemma previousDensityPass_empty [simp]: "previousDensityPass s {} = s"
  by (simp add: previousDensityPass_def map_nth)

lemma previousDensityUpdate_fields [simp]:
  "position (previousDensityUpdate s k) = position (particles s ! k)"
  "mass (previousDensityUpdate s k) = mass (particles s ! k)"
  "cellIndex (previousDensityUpdate s k) = cellIndex (particles s ! k)"
  "density (previousDensityUpdate s k) = rawSum s k / correctionSum s k"
  by (simp_all add: previousDensityUpdate_def)





















end
